theory Spec2Isabelle
  imports Complex_Main "HOL-Library.AList" "HOL-Library.Multiset"
begin

section \<open>Data model\<close>

text \<open>
  The analyzer (\<^verbatim>\<open>normalizeNFT\<close>, \<^verbatim>\<open>countTraits\<close>, \<^verbatim>\<open>findRareNFTs\<close>) works on plain
  JavaScript objects used as dictionaries with string keys. Such an object is modelled
  as an association list in insertion order: \<open>map_of\<close> is the property read \<^verbatim>\<open>o[k]\<close>
  (\<open>None\<close> for \<^verbatim>\<open>undefined\<close>), \<open>AList.update k v\<close> is the assignment \<^verbatim>\<open>o[k] = v\<close>
  (an existing key keeps its place, a new key goes to the end) and \<open>map fst\<close> is
  \<^verbatim>\<open>Object.keys\<close>. Two things of JavaScript objects are outside the model: keys that
  look like array indices are enumerated first by \<^verbatim>\<open>Object.keys\<close>, and a read of a
  key that is a member of \<^verbatim>\<open>Object.prototype\<close> (such as \<^verbatim>\<open>constructor\<close>) finds the
  inherited member. A \<^verbatim>\<open>Set\<close> is a duplicate-free list in insertion order.

  Numbers are exact rationals: the rounding of IEEE doubles is not modelled (see
  \<open>toFixed2\<close> below for where that matters). An exception thrown by the analyzer (the
  \<^verbatim>\<open>TypeError\<close> of reading a property of \<^verbatim>\<open>undefined\<close>) is the result \<open>None\<close>.
\<close>

record attribute =
  trait_type :: string
  attr_value :: string   \<comment> \<open>the source's field \<^verbatim>\<open>value\<close>\<close>

record nft_fields =
  mintAddress :: string
  name :: string
  image :: string
  price :: "nat option"
  seller :: "string option"
  tokenAddress :: string

text \<open>A record of the marketplace API; \<open>attributes = None\<close> is a missing (falsy) field.\<close>

record api_nft = nft_fields +
  attributes :: "attribute list option"

record traitStats =
  countN :: nat         \<comment> \<open>the source's field \<^verbatim>\<open>count\<close>\<close>
  percentage :: rat

text \<open>
  The reason strings of the source: \<^verbatim>\<open>'One of one trait'\<close> and
  \<^verbatim>\<open>`Below ${percentThreshold}% threshold`\<close>; a trait that is not rare has no reason.
\<close>

datatype reason = OneOfOne | BelowThreshold rat

record rarityDetail = traitStats +
  val :: string         \<comment> \<open>the source's field \<^verbatim>\<open>value\<close>\<close>
  rare :: bool
  reason :: "reason option"

text \<open>The normalized item built by \<^verbatim>\<open>normalizeNFT\<close>.\<close>

record nft = nft_fields +
  rarity :: "(string \<times> rarityDetail) list"
  traits :: "(string \<times> string) list"

record traitAnalysis =
  traitCounts :: "(string \<times> (string \<times> traitStats) list) list"
  traitTypes :: "string list"

text \<open>The settings the code reads from \<^verbatim>\<open>config\<close>.\<close>

record config =
  percentThreshold :: rat
  oneOfOneThreshold :: bool
  cacheFullCollectionData :: bool
  cacheExpireHours :: rat
  maxNFTsToFetch :: nat

section \<open>The analyzer\<close>

text \<open>\<^verbatim>\<open>forEach\<close> with a body that may throw: the first exception ends the loop.\<close>

fun forEach :: "('a \<Rightarrow> 's \<Rightarrow> 's option) \<Rightarrow> 'a list \<Rightarrow> 's \<Rightarrow> 's option" where
  "forEach f [] s = Some s"
| "forEach f (x # xs) s = (case f x s of None \<Rightarrow> None | Some s' \<Rightarrow> forEach f xs s')"

text \<open>\<^verbatim>\<open>Set.prototype.add\<close>.\<close>

definition Set_add :: "'a \<Rightarrow> 'a list \<Rightarrow> 'a list" where
  "Set_add x s = (if x \<in> set s then s else s @ [x])"

definition normalizeNFT :: "api_nft option \<Rightarrow> nft option" where
  "normalizeNFT nft =
     (case nft of
        None \<Rightarrow> None
      | Some r \<Rightarrow>
          (case attributes r of
             None \<Rightarrow> None
           | Some attrs \<Rightarrow>
               Some \<lparr> mintAddress = mintAddress r, name = name r, image = image r,
                      price = price r, seller = seller r, tokenAddress = tokenAddress r,
                      rarity = [],
                      traits = fold (\<lambda>attr t. AList.update (trait_type attr) (attr_value attr) t)
                                 attrs [] \<rparr>))"

text \<open>
  \<^verbatim>\<open>nft.traits[type] || 'None'\<close>: a missing trait and the empty string (the falsy
  string) both give \<^verbatim>\<open>'None'\<close>.
\<close>

definition traitValue :: "nft \<Rightarrow> string \<Rightarrow> string" where
  "traitValue nft type =
     (case map_of (traits nft) type of
        None \<Rightarrow> ''None''
      | Some v \<Rightarrow> if v = [] then ''None'' else v)"

text \<open>The first loop of \<^verbatim>\<open>countTraits\<close>: the set of trait types of all items.\<close>

definition collectTraitTypes :: "nft list \<Rightarrow> string list" where
  "collectTraitTypes nfts = fold (\<lambda>nft tt. fold Set_add (map fst (traits nft)) tt) nfts []"

text \<open>The second loop: \<^verbatim>\<open>traitCounts[type] = {}\<close> for every type.\<close>

definition initCounts :: "string list \<Rightarrow> (string \<times> (string \<times> nat) list) list" where
  "initCounts tts = fold (\<lambda>type tc. AList.update type [] tc) tts []"

text \<open>
  \<^verbatim>\<open>traitCounts[type][value] = (traitCounts[type][value] || 0) + 1\<close>; reading
  \<^verbatim>\<open>traitCounts[type]\<close> of a type that has no entry throws.
\<close>

definition countValue ::
  "string \<Rightarrow> string \<Rightarrow> (string \<times> (string \<times> nat) list) list
     \<Rightarrow> (string \<times> (string \<times> nat) list) list option" where
  "countValue type v tc =
     (case map_of tc type of
        None \<Rightarrow> None
      | Some m \<Rightarrow>
          Some (AList.update type
                  (AList.update v ((case map_of m v of None \<Rightarrow> 0 | Some c \<Rightarrow> c) + 1) m) tc))"

text \<open>The third loop: every item adds one to one value of every trait type.\<close>

definition countOccurrences ::
  "string list \<Rightarrow> nft list \<Rightarrow> (string \<times> (string \<times> nat) list) list
     \<Rightarrow> (string \<times> (string \<times> nat) list) list option" where
  "countOccurrences tts nfts tc =
     forEach (\<lambda>nft. forEach (\<lambda>type. countValue type (traitValue nft type)) tts) nfts tc"

text \<open>
  \<^verbatim>\<open>parseFloat(x.toFixed(2))\<close>: \<^verbatim>\<open>toFixed(2)\<close> takes the integer \<open>n\<close> with \<open>n / 100\<close>
  nearest to \<open>x\<close>, the larger one at a tie, and formats a negative number through its
  absolute value. Here \<open>x\<close> is the exact quotient; the source's \<open>x\<close> is the double nearest
  to it, which can fall on the other side of a tie (23 of 160 items: the double is
  14.374999999999998 and the source gives 14.37, the exact quotient 14.375 gives
  14.38). The claims below are stated so that they hold for either choice at a tie.
\<close>

definition toFixed2 :: "rat \<Rightarrow> rat" where
  "toFixed2 x =
     (if x < 0 then - (of_int \<lfloor>(- x) * 100 + 1 / 2\<rfloor> / 100)
      else of_int \<lfloor>x * 100 + 1 / 2\<rfloor> / 100)"

text \<open>
  \<^verbatim>\<open>(count / totalNFTs) * 100\<close>, rounded. The loop below calls it only for the counts
  of a non-empty list, so \<open>totalNFTs\<close> is never zero there.
\<close>

definition percentageOf :: "nat \<Rightarrow> nat \<Rightarrow> rat" where
  "percentageOf n totalNFTs = toFixed2 (of_nat n / of_nat totalNFTs * 100)"

text \<open>
  The fourth loop replaces every count by the object \<^verbatim>\<open>{count, percentage}\<close>, for
  the keys \<^verbatim>\<open>Object.keys(traitCounts[type])\<close> of every type, in place. The model
  builds the typed table of the replaced entries, in the same key order.
\<close>

definition addPercentages ::
  "nat \<Rightarrow> string list \<Rightarrow> (string \<times> (string \<times> nat) list) list
     \<Rightarrow> (string \<times> (string \<times> traitStats) list) list option" where
  "addPercentages totalNFTs tts tc =
     forEach (\<lambda>type acc.
        case map_of tc type of
          None \<Rightarrow> None
        | Some m \<Rightarrow>
            Some (AList.update type
                    (map (\<lambda>(v, c). (v, \<lparr> countN = c, percentage = percentageOf c totalNFTs \<rparr>)) m)
                    acc))
       tts []"

definition countTraits :: "nft list \<Rightarrow> traitAnalysis option" where
  "countTraits nfts =
     (let totalNFTs = length nfts;
          tts = collectTraitTypes nfts
      in case countOccurrences tts nfts (initCounts tts) of
           None \<Rightarrow> None
         | Some tc \<Rightarrow>
             (case addPercentages totalNFTs tts tc of
                None \<Rightarrow> None
              | Some stats \<Rightarrow> Some \<lparr> traitCounts = stats, traitTypes = tts \<rparr>))"

text \<open>
  The body of the inner loop of \<^verbatim>\<open>findRareNFTs\<close>, on the pair of the flag
  \<^verbatim>\<open>isRare\<close> and the object \<^verbatim>\<open>rarityDetails\<close>.
\<close>

definition checkTrait ::
  "config \<Rightarrow> traitAnalysis \<Rightarrow> nft \<Rightarrow> string
     \<Rightarrow> bool \<times> (string \<times> rarityDetail) list \<Rightarrow> (bool \<times> (string \<times> rarityDetail) list) option" where
  "checkTrait cfg ta nft type st =
     (case st of (isRare, rarityDetails) \<Rightarrow>
        (case map_of (traitCounts ta) type of
           None \<Rightarrow> None
         | Some m \<Rightarrow>
             (let v = traitValue nft type in
              case map_of m v of
                None \<Rightarrow> Some (isRare, rarityDetails)
              | Some ts \<Rightarrow>
                  if oneOfOneThreshold cfg \<and> countN ts = 1 then
                    Some (True, AList.update type
                            \<lparr> countN = 1, percentage = percentage ts, val = v, rare = True,
                              reason = Some OneOfOne \<rparr> rarityDetails)
                  else if percentage ts \<le> percentThreshold cfg then
                    Some (True, AList.update type
                            \<lparr> countN = countN ts, percentage = percentage ts, val = v,
                              rare = True,
                              reason = Some (BelowThreshold (percentThreshold cfg)) \<rparr> rarityDetails)
                  else
                    Some (isRare, AList.update type
                            \<lparr> countN = countN ts, percentage = percentage ts, val = v,
                              rare = False, reason = None \<rparr> rarityDetails))))"

text \<open>The inner loop for one item, from \<^verbatim>\<open>isRare = false\<close> and \<^verbatim>\<open>rarityDetails = {}\<close>.\<close>

definition classifyNFT ::
  "config \<Rightarrow> traitAnalysis \<Rightarrow> nft \<Rightarrow> (bool \<times> (string \<times> rarityDetail) list) option" where
  "classifyNFT cfg ta nft = forEach (checkTrait cfg ta nft) (traitTypes ta) (False, [])"

text \<open>
  \<^verbatim>\<open>findRareNFTs\<close> assigns \<^verbatim>\<open>nft.rarity\<close> on the items of its argument that are rare
  and returns those items. The model returns the argument list as the call leaves it
  together with the returned list.
\<close>

definition findRareStep ::
  "config \<Rightarrow> traitAnalysis \<Rightarrow> nft \<Rightarrow> nft list \<times> nft list \<Rightarrow> (nft list \<times> nft list) option" where
  "findRareStep cfg ta nft st =
     (case st of (processed, rareNFTs) \<Rightarrow>
        (case classifyNFT cfg ta nft of
           None \<Rightarrow> None
         | Some (isRare, rarityDetails) \<Rightarrow>
             if isRare then
               Some (processed @ [nft\<lparr>rarity := rarityDetails\<rparr>], rareNFTs @ [nft\<lparr>rarity := rarityDetails\<rparr>])
             else Some (processed @ [nft], rareNFTs)))"

definition findRareNFTs ::
  "config \<Rightarrow> traitAnalysis \<Rightarrow> nft list \<Rightarrow> (nft list \<times> nft list) option" where
  "findRareNFTs cfg ta nfts = forEach (findRareStep cfg ta) nfts ([], [])"


section \<open>The remote client\<close>

text \<open>
  A request either resolves with the response body or rejects with an error.
  \<open>HttpError status has_config\<close> is an error that carries \<^verbatim>\<open>err.response\<close> with that
  status, and says whether \<^verbatim>\<open>resp.config\<close> is set; \<open>NoResponse\<close> is an error without
  \<^verbatim>\<open>err.response\<close>. A body is \<open>None\<close> when it is \<^verbatim>\<open>null\<close>.

  The marketplace is a parameter: every endpoint is a function of the number of
  requests the process has issued before (so that its answers may change with time)
  and of what the URL names. The effects of a fetch are kept in a trace: the requests
  issued and the waits, in order.
\<close>

datatype error = HttpError nat bool | NoResponse

datatype request =
    CollectionInfo string
  | CollectionStats string
  | Listings string nat nat
  | Activities string nat nat
  | Token string

datatype event = Get request | Sleep nat

record io =
  clock :: nat
  trace :: "event list"

record listing =
  tokenMint :: string
  listPrice :: "nat option"        \<comment> \<open>the source's field \<^verbatim>\<open>price\<close>\<close>
  listSeller :: "string option"    \<comment> \<open>the source's field \<^verbatim>\<open>seller\<close>\<close>

record activity =
  activityMint :: "string option"  \<comment> \<open>the source's field \<^verbatim>\<open>tokenMint\<close>\<close>

record ('i, 's) api =
  collections :: "nat \<Rightarrow> string \<Rightarrow> error + 'i option"
  collectionStats :: "nat \<Rightarrow> string \<Rightarrow> error + 's option"
  listings :: "nat \<Rightarrow> string \<Rightarrow> nat \<Rightarrow> nat \<Rightarrow> error + listing list option"
  activities :: "nat \<Rightarrow> string \<Rightarrow> nat \<Rightarrow> nat \<Rightarrow> error + activity list option"
  tokens :: "nat \<Rightarrow> string \<Rightarrow> error + api_nft option"

definition issue :: "request \<Rightarrow> io \<Rightarrow> io" where
  "issue r s = s\<lparr> clock := clock s + 1, trace := trace s @ [Get r] \<rparr>"

text \<open>
  \<^verbatim>\<open>requestError\<close> of \<^verbatim>\<open>logger.js\<close> (its first argument only names the caller in the
  log): the result says whether to retry.
\<close>

definition requestError :: "error \<Rightarrow> io \<Rightarrow> bool \<times> io" where
  "requestError err s =
     (case err of
        HttpError status has_config \<Rightarrow>
          if status = 429 \<and> has_config then (True, s\<lparr> trace := trace s @ [Sleep 5000] \<rparr>)
          else (False, s)
      | NoResponse \<Rightarrow> (False, s))"

definition getCollectionInfo :: "('i, 's) api \<Rightarrow> string \<Rightarrow> io \<Rightarrow> 'i option \<times> io" where
  "getCollectionInfo a symbol s =
     (case collections a (clock s) symbol of
        Inr data \<Rightarrow> (data, issue (CollectionInfo symbol) s)
      | Inl e \<Rightarrow> (None, snd (requestError e (issue (CollectionInfo symbol) s))))"

definition getCollectionStats :: "('i, 's) api \<Rightarrow> string \<Rightarrow> io \<Rightarrow> 's option \<times> io" where
  "getCollectionStats a symbol s =
     (case collectionStats a (clock s) symbol of
        Inr data \<Rightarrow> (data, issue (CollectionStats symbol) s)
      | Inl e \<Rightarrow> (None, snd (requestError e (issue (CollectionStats symbol) s))))"

definition getNFTMetadata :: "('i, 's) api \<Rightarrow> string \<Rightarrow> io \<Rightarrow> api_nft option \<times> io" where
  "getNFTMetadata a mint s =
     (case tokens a (clock s) mint of
        Inr data \<Rightarrow> (data, issue (Token mint) s)
      | Inl e \<Rightarrow> (None, snd (requestError e (issue (Token mint) s))))"

definition limit :: nat where
  "limit = 500"

text \<open>
  The \<^verbatim>\<open>while (hasMore)\<close> loop of \<^verbatim>\<open>getCollectionListings\<close>: one call is one pass
  through the body, a recursive call is the next pass with \<^verbatim>\<open>hasMore\<close> still true.
  The loop need not end, so the result is an option: \<open>None\<close> is a fetch that never
  returns.
\<close>

partial_function (option) listingsLoop ::
  "('i, 's) api \<Rightarrow> string \<Rightarrow> listing list \<Rightarrow> nat \<Rightarrow> io \<Rightarrow> (listing list \<times> io) option" where
  "listingsLoop a symbol allListings offset s =
     (case listings a (clock s) symbol offset limit of
        Inr data \<Rightarrow>
          (case data of
             None \<Rightarrow> Some (allListings, issue (Listings symbol offset limit) s)
           | Some page \<Rightarrow>
               if 0 < length page then
                 (if length page < limit
                  then Some (allListings @ page, issue (Listings symbol offset limit) s)
                  else listingsLoop a symbol (allListings @ page) (offset + limit)
                         (issue (Listings symbol offset limit) s))
               else Some (allListings, issue (Listings symbol offset limit) s))
      | Inl e \<Rightarrow>
          (case requestError e (issue (Listings symbol offset limit) s) of
             (retry, s') \<Rightarrow>
               if retry then listingsLoop a symbol allListings offset s'
               else Some (allListings, s')))"

definition getCollectionListings ::
  "('i, 's) api \<Rightarrow> string \<Rightarrow> io \<Rightarrow> (listing list \<times> io) option" where
  "getCollectionListings a symbol s = listingsLoop a symbol [] 0 s"

text \<open>
  \<^verbatim>\<open>[...new Set(data.filter(activity => activity.tokenMint).map(activity => activity.tokenMint))]\<close>:
  a missing and an empty \<^verbatim>\<open>tokenMint\<close> are falsy.
\<close>

definition uniqueTokens :: "activity list \<Rightarrow> string list" where
  "uniqueTokens data =
     fold Set_add
       (concat (map (\<lambda>act. case activityMint act of
                              None \<Rightarrow> []
                            | Some mint \<Rightarrow> if mint = [] then [] else [mint]) data))
       []"

text \<open>
  The \<^verbatim>\<open>for (const mint of uniqueTokens)\<close> loop of \<^verbatim>\<open>getAllCollectionNFTs\<close>, on
  \<^verbatim>\<open>allNFTs\<close>, \<^verbatim>\<open>hasMore\<close> and the trace; \<^verbatim>\<open>getNFTMetadata\<close> does not throw.
\<close>

fun tokensLoop ::
  "('i, 's) api \<Rightarrow> nat \<Rightarrow> string list \<Rightarrow> api_nft list \<times> bool \<times> io \<Rightarrow> api_nft list \<times> bool \<times> io" where
  "tokensLoop a maxNFTs [] st = st"
| "tokensLoop a maxNFTs (mint # rest) (allNFTs, hasMore, s) =
     (if maxNFTs \<le> length allNFTs then (allNFTs, False, s)
      else if \<not> (\<exists>nft \<in> set allNFTs. mintAddress nft = mint) then
        (case getNFTMetadata a mint s of
           (Some metadata, s') \<Rightarrow> tokensLoop a maxNFTs rest (allNFTs @ [metadata], hasMore, s')
         | (None, s') \<Rightarrow> tokensLoop a maxNFTs rest (allNFTs, hasMore, s'))
      else tokensLoop a maxNFTs rest (allNFTs, hasMore, s))"

partial_function (option) activitiesLoop ::
  "('i, 's) api \<Rightarrow> nat \<Rightarrow> string \<Rightarrow> api_nft list \<Rightarrow> nat \<Rightarrow> io \<Rightarrow> (api_nft list \<times> io) option" where
  "activitiesLoop a maxNFTs symbol allNFTs offset s =
     (case activities a (clock s) symbol offset limit of
        Inr data \<Rightarrow>
          (case data of
             None \<Rightarrow> Some (allNFTs, issue (Activities symbol offset limit) s)
           | Some page \<Rightarrow>
               if 0 < length page then
                 (case tokensLoop a maxNFTs (uniqueTokens page)
                         (allNFTs, True, issue (Activities symbol offset limit) s) of
                    (allNFTs', hasMore, s') \<Rightarrow>
                      if length page < limit \<or> maxNFTs \<le> length allNFTs' then Some (allNFTs', s')
                      else if hasMore
                      then activitiesLoop a maxNFTs symbol allNFTs' (offset + limit) s'
                      else Some (allNFTs', s'))
               else Some (allNFTs, issue (Activities symbol offset limit) s))
      | Inl e \<Rightarrow>
          (case requestError e (issue (Activities symbol offset limit) s) of
             (retry, s') \<Rightarrow>
               if retry then activitiesLoop a maxNFTs symbol allNFTs offset s'
               else Some (allNFTs, s')))"

definition getAllCollectionNFTs ::
  "config \<Rightarrow> ('i, 's) api \<Rightarrow> string \<Rightarrow> io \<Rightarrow> (api_nft list \<times> io) option" where
  "getAllCollectionNFTs cfg a symbol s = activitiesLoop a (maxNFTsToFetch cfg) symbol [] 0 s"


section \<open>The cache\<close>

text \<open>
  The files of the cache directory. The text of a file is kept as what
  \<^verbatim>\<open>JSON.parse\<close> makes of it: \<open>Malformed\<close> is a text that does not parse, \<open>Unreadable\<close>
  a file that \<^verbatim>\<open>readFileSync\<close> cannot read. A JSON document is \<^verbatim>\<open>null\<close>, an array of
  marketplace records, an array of strings, or anything else; for the last, the flag
  says whether \<^verbatim>\<open>.length > 0\<close> holds of it. Writing \<^verbatim>\<open>JSON.stringify(data)\<close> stores
  the document \<open>data\<close>. Times are milliseconds. Of \<^verbatim>\<open>path.join\<close> only the
  concatenation is modelled.
\<close>

datatype json = JsonNull | NFTArray "api_nft list" | MintArray "string list" | OtherJson bool

datatype content = Unreadable | Malformed | Parsed json

record cache_file =
  mtime :: int
  content :: content

record disk =
  files :: "string \<Rightarrow> cache_file option"
  statFails :: "string \<Rightarrow> bool"     \<comment> \<open>\<^verbatim>\<open>statSync\<close> of this path throws\<close>
  writeFails :: "string \<Rightarrow> bool"    \<comment> \<open>\<^verbatim>\<open>writeFileSync\<close> to this path throws\<close>
  unlinkFails :: "string \<Rightarrow> bool"   \<comment> \<open>\<^verbatim>\<open>unlinkSync\<close> of this path throws\<close>

definition CACHE_DIR :: string where
  "CACHE_DIR = ''cache''"

definition getCacheFilePath :: "string \<Rightarrow> string" where
  "getCacheFilePath collectionSymbol = CACHE_DIR @ ''/'' @ collectionSymbol @ ''.json''"

definition getSeenRareNFTsPath :: "string \<Rightarrow> string" where
  "getSeenRareNFTsPath collectionSymbol = CACHE_DIR @ ''/'' @ collectionSymbol @ ''_seen.json''"

definition cacheExists :: "config \<Rightarrow> disk \<Rightarrow> int \<Rightarrow> string \<Rightarrow> bool" where
  "cacheExists cfg d currentTime collectionSymbol =
     (case files d (getCacheFilePath collectionSymbol) of
        None \<Rightarrow> False
      | Some f \<Rightarrow>
          if statFails d (getCacheFilePath collectionSymbol) then False
          else if of_int (currentTime - mtime f) > cacheExpireHours cfg * 60 * 60 * 1000
          then False
          else True)"

text \<open>
  \<^verbatim>\<open>writeFileSync\<close> at time \<open>t\<close>: \<open>None\<close> when it throws.
\<close>

definition writeFileSync :: "string \<Rightarrow> json \<Rightarrow> int \<Rightarrow> disk \<Rightarrow> disk option" where
  "writeFileSync path doc t d =
     (if writeFails d path then None
      else Some (d\<lparr> files := (files d)(path \<mapsto> \<lparr> mtime = t, content = Parsed doc \<rparr>) \<rparr>))"

definition saveToCache :: "config \<Rightarrow> disk \<Rightarrow> int \<Rightarrow> string \<Rightarrow> api_nft list \<Rightarrow> bool \<times> disk" where
  "saveToCache cfg d t collectionSymbol data =
     (if \<not> cacheFullCollectionData cfg then (False, d)
      else case writeFileSync (getCacheFilePath collectionSymbol) (NFTArray data) t d of
             Some d' \<Rightarrow> (True, d')
           | None \<Rightarrow> (False, d))"

text \<open>
  \<^verbatim>\<open>loadFromCache\<close> returns \<^verbatim>\<open>null\<close> or the parsed document; the log line reads
  \<^verbatim>\<open>cachedData.length\<close>, which throws into the \<^verbatim>\<open>catch\<close> when the document is \<^verbatim>\<open>null\<close>.
\<close>

definition loadFromCache :: "config \<Rightarrow> disk \<Rightarrow> int \<Rightarrow> string \<Rightarrow> json" where
  "loadFromCache cfg d currentTime collectionSymbol =
     (if \<not> cacheFullCollectionData cfg then JsonNull
      else if \<not> cacheExists cfg d currentTime collectionSymbol then JsonNull
      else case files d (getCacheFilePath collectionSymbol) of
             None \<Rightarrow> JsonNull
           | Some f \<Rightarrow>
               (case content f of
                  Parsed JsonNull \<Rightarrow> JsonNull
                | Parsed cachedData \<Rightarrow> cachedData
                | _ \<Rightarrow> JsonNull))"

definition saveSeenRareNFTs :: "disk \<Rightarrow> int \<Rightarrow> string \<Rightarrow> string list \<Rightarrow> bool \<times> disk" where
  "saveSeenRareNFTs d t collectionSymbol seenRareNFTs =
     (case writeFileSync (getSeenRareNFTsPath collectionSymbol) (MintArray seenRareNFTs) t d of
        Some d' \<Rightarrow> (True, d')
      | None \<Rightarrow> (False, d))"

definition clearCache :: "disk \<Rightarrow> string \<Rightarrow> bool \<times> disk" where
  "clearCache d collectionSymbol =
     (case files d (getCacheFilePath collectionSymbol) of
        None \<Rightarrow> (True, d)
      | Some f \<Rightarrow>
          if unlinkFails d (getCacheFilePath collectionSymbol) then (False, d)
          else (True, d\<lparr> files := (files d)(getCacheFilePath collectionSymbol := None) \<rparr>))"

section \<open>The scan cycle\<close>

text \<open>
  The state of the process that a scan cycle reads and writes: the set
  \<^verbatim>\<open>seenRareNFTs\<close>, the cache directory, and the lists handed to
  \<^verbatim>\<open>sendRareSummaryDiscordNotification\<close> so far (each with the collection name).
\<close>

record sniper =
  seenRareNFTs :: "string list"
  cacheDisk :: disk
  notifications :: "(nft list \<times> string) list"

text \<open>
  What the awaited calls of one cycle return, and the clock readings of the cycle (at
  the check of the cache, at the write of the snapshot and at the write of the seen
  file): the name in the result of \<^verbatim>\<open>getCollectionInfo\<close> (\<open>None\<close> for \<^verbatim>\<open>null\<close>), the results of
  \<^verbatim>\<open>getAllCollectionNFTs\<close> and \<^verbatim>\<open>getCollectionListings\<close>, and the result of
  \<^verbatim>\<open>getNFTMetadata\<close> for the listing at each position.
\<close>

record cycle =
  checkedAt :: int
  savedAt :: int
  reportedAt :: int
  collectionInfo :: "string option"
  fetchedNFTs :: "api_nft list"
  listedNFTs :: "listing list"
  tokenMetadata :: "nat \<Rightarrow> string \<Rightarrow> api_nft option"

text \<open>
  The loop over the listings: an item is kept when its metadata arrives and
  normalizes, with the price and the seller of the listing.
\<close>

definition normalizeListed :: "(nat \<Rightarrow> string \<Rightarrow> api_nft option) \<Rightarrow> listing list \<Rightarrow> nft list" where
  "normalizeListed metadata ls =
     fold (\<lambda>(i, l) normalizedListedNFTs.
             case metadata i (tokenMint l) of
               None \<Rightarrow> normalizedListedNFTs
             | Some nftDetails \<Rightarrow>
                 (case normalizeNFT (Some nftDetails) of
                    None \<Rightarrow> normalizedListedNFTs
                  | Some normalized \<Rightarrow>
                      normalizedListedNFTs
                        @ [normalized\<lparr> price := listPrice l, seller := listSeller l \<rparr>]))
       (enumerate 0 ls) []"

text \<open>
  The body of \<^verbatim>\<open>rareListedNFTs.forEach\<close>, on \<^verbatim>\<open>seenRareNFTs\<close> and \<^verbatim>\<open>newRareNFTs\<close>.
\<close>

definition noteRare :: "nft \<Rightarrow> string list \<times> nft list \<Rightarrow> string list \<times> nft list" where
  "noteRare nft st =
     (case st of (seen, newRareNFTs) \<Rightarrow>
        if mintAddress nft \<in> set seen then (seen, newRareNFTs)
        else (Set_add (mintAddress nft) seen, newRareNFTs @ [nft]))"

text \<open>
  Lines 100 to 151 of \<^verbatim>\<open>processCollection\<close>: what the cycle does with the rare
  listed items.
\<close>

definition reportRare :: "string \<Rightarrow> string \<Rightarrow> int \<Rightarrow> nft list \<Rightarrow> sniper \<Rightarrow> sniper" where
  "reportRare collectionSymbol collectionName t rareListedNFTs st =
     (if 0 < length rareListedNFTs then
        (case fold noteRare rareListedNFTs (seenRareNFTs st, []) of
           (seen, newRareNFTs) \<Rightarrow>
             (let d = snd (saveSeenRareNFTs (cacheDisk st) t collectionSymbol seen);
                  st' = st\<lparr> seenRareNFTs := seen, cacheDisk := d \<rparr>
              in if 0 < length newRareNFTs
                 then st'\<lparr> notifications := notifications st' @ [(newRareNFTs, collectionName)] \<rparr>
                 else st'))
      else st)"

text \<open>
  The records that the cycle analyses, as \<^verbatim>\<open>normalizeNFT\<close> sees them: an element of
  an array of strings has no \<^verbatim>\<open>attributes\<close> and normalizes to \<^verbatim>\<open>null\<close>, like \<open>None\<close>.
  The result is \<open>None\<close> when the cached document is not an array but has a positive
  \<^verbatim>\<open>length\<close>: \<^verbatim>\<open>allNFTs.map\<close> then throws, into the \<^verbatim>\<open>catch\<close> of the cycle.
\<close>

definition obtainAllNFTs ::
  "config \<Rightarrow> string \<Rightarrow> cycle \<Rightarrow> disk \<Rightarrow> (api_nft option list \<times> disk) option" where
  "obtainAllNFTs cfg collectionSymbol c d =
     (let fetch = (if 0 < length (fetchedNFTs c)
                   then (map Some (fetchedNFTs c),
                         snd (saveToCache cfg d (savedAt c) collectionSymbol (fetchedNFTs c)))
                   else ([], d))
      in case loadFromCache cfg d (checkedAt c) collectionSymbol of
           NFTArray cachedNFTs \<Rightarrow>
             if 0 < length cachedNFTs then Some (map Some cachedNFTs, d) else Some fetch
         | MintArray cachedNFTs \<Rightarrow>
             if 0 < length cachedNFTs then Some (map (\<lambda>_. None) cachedNFTs, d) else Some fetch
         | OtherJson positive \<Rightarrow> if positive then None else Some fetch
         | JsonNull \<Rightarrow> Some fetch)"

text \<open>
  One scan cycle. Every \<^verbatim>\<open>return\<close> and the \<^verbatim>\<open>catch\<close> of the source end the cycle with
  the state as it is at that point.
\<close>

definition processCollection :: "config \<Rightarrow> string \<Rightarrow> cycle \<Rightarrow> sniper \<Rightarrow> sniper" where
  "processCollection cfg collectionSymbol c st =
     (case collectionInfo c of
        None \<Rightarrow> st
      | Some collectionName \<Rightarrow>
          (case obtainAllNFTs cfg collectionSymbol c (cacheDisk st) of
             None \<Rightarrow> st
           | Some (allNFTs, d) \<Rightarrow>
               (let st1 = st\<lparr> cacheDisk := d \<rparr> in
                if length allNFTs = 0 then st1
                else
                  (case countTraits (List.map_filter normalizeNFT allNFTs) of
                     None \<Rightarrow> st1
                   | Some traitAnalysis \<Rightarrow>
                       if length (listedNFTs c) = 0 then st1
                       else
                         (case findRareNFTs cfg traitAnalysis
                                 (normalizeListed (tokenMetadata c) (listedNFTs c)) of
                            None \<Rightarrow> st1
                          | Some (normalizedListedNFTs, rareListedNFTs) \<Rightarrow>
                              reportRare collectionSymbol collectionName (reportedAt c)
                                rareListedNFTs st1)))))"

section \<open>The scheduler\<close>

text \<open>
  \<^verbatim>\<open>main\<close> runs in two steps of the event loop: from its call to the
  \<^verbatim>\<open>await processCollection(...)\<close>, and, when that promise settles, its \<^verbatim>\<open>finally\<close>
  block. Nothing else runs in between the statements of one step. Besides the flag
  \<^verbatim>\<open>isScanRunning\<close> the state counts the calls of \<^verbatim>\<open>processCollection\<close> that have
  started and not yet settled, the calls started and the triggers dropped.
\<close>

record scheduler =
  isScanRunning :: bool
  scansInProgress :: nat
  scansStarted :: nat
  triggersDropped :: nat

datatype outcome = Succeeded | ErrorCaught

datatype trigger = Startup | IntervalTimer

datatype sched_event = Trigger trigger | CycleSettles outcome

definition main_start :: "scheduler \<Rightarrow> scheduler" where
  "main_start s =
     (if isScanRunning s then s\<lparr> triggersDropped := triggersDropped s + 1 \<rparr>
      else s\<lparr> isScanRunning := True, scansInProgress := scansInProgress s + 1,
              scansStarted := scansStarted s + 1 \<rparr>)"

definition main_finally :: "outcome \<Rightarrow> scheduler \<Rightarrow> scheduler" where
  "main_finally oc s = s\<lparr> isScanRunning := False, scansInProgress := scansInProgress s - 1 \<rparr>"

text \<open>A cycle can settle only while one is in progress.\<close>

definition sched_step :: "sched_event \<Rightarrow> scheduler \<Rightarrow> scheduler" where
  "sched_step ev s =
     (case ev of
        Trigger t \<Rightarrow> main_start s
      | CycleSettles oc \<Rightarrow> if scansInProgress s = 0 then s else main_finally oc s)"

definition sched_init :: scheduler where
  "sched_init = \<lparr> isScanRunning = False, scansInProgress = 0, scansStarted = 0,
                  triggersDropped = 0 \<rparr>"

definition sched_run :: "sched_event list \<Rightarrow> scheduler" where
  "sched_run evs = fold sched_step evs sched_init"

section \<open>Notions used in the statements and proofs\<close>

text \<open>
  \<open>lookupCount\<close> is the guarded read \<^verbatim>\<open>table[type]?.[value]\<close> of a table of tables;
  \<open>storedCount\<close> is \<^verbatim>\<open>table[type][value] || 0\<close>.
\<close>

definition lookupCount :: "(string \<times> (string \<times> 'a) list) list \<Rightarrow> string \<Rightarrow> string \<Rightarrow> 'a option" where
  "lookupCount tc type v = (case map_of tc type of None \<Rightarrow> None | Some m \<Rightarrow> map_of m v)"

definition storedCount :: "(string \<times> (string \<times> nat) list) list \<Rightarrow> string \<Rightarrow> string \<Rightarrow> nat" where
  "storedCount tc type v = (case lookupCount tc type v of None \<Rightarrow> 0 | Some c \<Rightarrow> c)"

text \<open>
  The condition under which \<^verbatim>\<open>findRareNFTs\<close> calls a trait rare, and the annotation it
  stores for a trait whose value has statistics.
\<close>

definition rareStat :: "config \<Rightarrow> traitStats \<Rightarrow> bool" where
  "rareStat cfg ts \<longleftrightarrow>
     oneOfOneThreshold cfg \<and> countN ts = 1 \<or> percentage ts \<le> percentThreshold cfg"

definition detailOf :: "config \<Rightarrow> string \<Rightarrow> traitStats \<Rightarrow> rarityDetail" where
  "detailOf cfg v ts =
     \<lparr> countN = countN ts, percentage = percentage ts, val = v, rare = rareStat cfg ts,
       reason = (if oneOfOneThreshold cfg \<and> countN ts = 1 then Some OneOfOne
                 else if percentage ts \<le> percentThreshold cfg
                 then Some (BelowThreshold (percentThreshold cfg)) else None) \<rparr>"

text \<open>
  What \<^verbatim>\<open>findRareNFTs\<close> does to one item of its argument, and whether it returns it.
\<close>

definition markNFT :: "config \<Rightarrow> traitAnalysis \<Rightarrow> nft \<Rightarrow> nft" where
  "markNFT cfg ta nft =
     (case classifyNFT cfg ta nft of Some (True, d) \<Rightarrow> nft\<lparr>rarity := d\<rparr> | _ \<Rightarrow> nft)"

definition isRareNFT :: "config \<Rightarrow> traitAnalysis \<Rightarrow> nft \<Rightarrow> bool" where
  "isRareNFT cfg ta nft = (case classifyNFT cfg ta nft of Some (r, d) \<Rightarrow> r | None \<Rightarrow> False)"

text \<open>
  A sequence of scan cycles of one collection, the mint addresses in a list of
  notifications, and the relation between the state before and after cycles: the
  notifications added name only mint addresses that were not in the seen set, no
  address twice, and the seen set grows by exactly those addresses.
\<close>

definition scanCycles :: "config \<Rightarrow> string \<Rightarrow> cycle list \<Rightarrow> sniper \<Rightarrow> sniper" where
  "scanCycles cfg collectionSymbol cs st = fold (processCollection cfg collectionSymbol) cs st"

definition notifiedMints :: "(nft list \<times> string) list \<Rightarrow> string list" where
  "notifiedMints ns = concat (map (\<lambda>(nfts, collectionName). map mintAddress nfts) ns)"

definition reportsOnlyNew :: "sniper \<Rightarrow> sniper \<Rightarrow> bool" where
  "reportsOnlyNew st st' \<longleftrightarrow>
     (\<exists>new. notifications st' = notifications st @ new \<and>
        distinct (notifiedMints new) \<and>
        set (notifiedMints new) \<inter> set (seenRareNFTs st) = {} \<and>
        set (seenRareNFTs st') = set (seenRareNFTs st) \<union> set (notifiedMints new))"

text \<open>
  The state of a fetch after \<open>k\<close> rounds of one request answered with 429 and the wait
  that follows it.
\<close>

definition retried :: "request \<Rightarrow> nat \<Rightarrow> io \<Rightarrow> io" where
  "retried r k s = s\<lparr> clock := clock s + k,
                      trace := trace s @ concat (replicate k [Get r, Sleep 5000]) \<rparr>"

section \<open>Concrete inputs\<close>

text \<open>
  A collection of three items with hats, its statistics, settings with a threshold of
  40 percent, and an item whose hat is not in the statistics.
\<close>

definition item :: "string \<Rightarrow> (string \<times> string) list \<Rightarrow> nft" where
  "item m t = \<lparr> mintAddress = m, name = m, image = [], price = None, seller = None,
                tokenAddress = m, rarity = [], traits = t \<rparr>"

definition three_hats :: "nft list" where
  "three_hats = [item ''m1'' [(''Hat'', ''red'')], item ''m2'' [(''Hat'', ''blue'')],
                 item ''m3'' [(''Hat'', ''red''), (''Eyes'', ''laser'')]]"


definition two_types :: "nft list" where
  "two_types = [item ''m1'' [(''Hat'', ''red'')], item ''m2'' [(''Eyes'', ''blue'')]]"


definition sample_config :: config where
  "sample_config = \<lparr> percentThreshold = 40, oneOfOneThreshold = True,
                      cacheFullCollectionData = True, cacheExpireHours = 168,
                      maxNFTsToFetch = 10000 \<rparr>"

definition hats_analysis :: traitAnalysis where
  "hats_analysis =
     \<lparr> traitCounts =
              [(''Hat'', [(''red'', \<lparr> countN = 2, percentage = 6667 / 100 \<rparr>),
                          (''blue'', \<lparr> countN = 1, percentage = 3333 / 100 \<rparr>)]),
               (''Eyes'', [(''None'', \<lparr> countN = 2, percentage = 6667 / 100 \<rparr>),
                           (''laser'', \<lparr> countN = 1, percentage = 3333 / 100 \<rparr>)])],
            traitTypes = [''Hat'', ''Eyes''] \<rparr>"

text \<open>
  The same collection as the marketplace serves it, an empty cache directory, a scan
  cycle in which the second and third item are listed (the second one twice), and the
  state of a process that has seen nothing.
\<close>

definition record_of :: "string \<Rightarrow> (string \<times> string) list \<Rightarrow> api_nft" where
  "record_of m t = \<lparr> mintAddress = m, name = m, image = [], price = None, seller = None,
                     tokenAddress = m,
                     attributes = Some (map (\<lambda>(k, v). \<lparr> trait_type = k, attr_value = v \<rparr>) t) \<rparr>"

definition hat_records :: "api_nft list" where
  "hat_records = [record_of ''m1'' [(''Hat'', ''red'')], record_of ''m2'' [(''Hat'', ''blue'')],
                  record_of ''m3'' [(''Hat'', ''red''), (''Eyes'', ''laser'')]]"

definition empty_disk :: disk where
  "empty_disk = \<lparr> files = (\<lambda>p. None), statFails = (\<lambda>p. False), writeFails = (\<lambda>p. False),
                  unlinkFails = (\<lambda>p. False) \<rparr>"

definition hats_cycle :: cycle where
  "hats_cycle =
     \<lparr> checkedAt = 1000, savedAt = 2000, reportedAt = 3000, collectionInfo = Some ''Hats'',
       fetchedNFTs = hat_records,
       listedNFTs = [\<lparr> tokenMint = ''m2'', listPrice = Some 5, listSeller = Some ''s1'' \<rparr>,
                     \<lparr> tokenMint = ''m3'', listPrice = Some 7, listSeller = Some ''s2'' \<rparr>,
                     \<lparr> tokenMint = ''m2'', listPrice = Some 6, listSeller = Some ''s1'' \<rparr>],
       tokenMetadata = (\<lambda>i mint. find (\<lambda>r. mintAddress r = mint) hat_records) \<rparr>"

definition fresh_sniper :: sniper where
  "fresh_sniper = \<lparr> seenRareNFTs = [], cacheDisk = empty_disk, notifications = [] \<rparr>"

text \<open>
  A marketplace that answers every request with 429, one that does so for the first
  request only, one that does so for the first two requests, and the start of a trace.
\<close>

definition rate_limited :: "(unit, unit) api" where
  "rate_limited =
     \<lparr> collections = (\<lambda>n symbol. Inl (HttpError 429 True)),
       collectionStats = (\<lambda>n symbol. Inl (HttpError 429 True)),
       listings = (\<lambda>n symbol offset lim. Inl (HttpError 429 True)),
       activities = (\<lambda>n symbol offset lim. Inl (HttpError 429 True)),
       tokens = (\<lambda>n mint. Inl (HttpError 429 True)) \<rparr>"

definition plain_record :: "string \<Rightarrow> api_nft" where
  "plain_record m = \<lparr> mintAddress = m, name = m, image = [], price = None, seller = None,
                      tokenAddress = m, attributes = Some [] \<rparr>"

definition busy_once :: "(unit, unit) api" where
  "busy_once =
     \<lparr> collections = (\<lambda>n symbol. if n < 1 then Inl (HttpError 429 True) else Inr (Some ())),
       collectionStats = (\<lambda>n symbol. if n < 1 then Inl (HttpError 429 True) else Inr (Some ())),
       listings = (\<lambda>n symbol offset lim. if n < 1 then Inl (HttpError 429 True) else Inr (Some [])),
       activities = (\<lambda>n symbol offset lim. if n < 1 then Inl (HttpError 429 True) else Inr (Some [])),
       tokens = (\<lambda>n mint. if n < 1 then Inl (HttpError 429 True) else Inr (Some (plain_record mint))) \<rparr>"

definition busy_twice :: "(unit, unit) api" where
  "busy_twice =
     \<lparr> collections = (\<lambda>n symbol. if n < 2 then Inl (HttpError 429 True) else Inr (Some ())),
       collectionStats = (\<lambda>n symbol. if n < 2 then Inl (HttpError 429 True) else Inr (Some ())),
       listings = (\<lambda>n symbol offset lim.
          if n < 2 then Inl (HttpError 429 True)
          else Inr (Some [\<lparr> tokenMint = ''m1'', listPrice = Some 5, listSeller = None \<rparr>])),
       activities = (\<lambda>n symbol offset lim.
          if n < 2 then Inl (HttpError 429 True) else Inr (Some [])),
       tokens = (\<lambda>n mint. if n < 2 then Inl (HttpError 429 True) else Inr (Some (plain_record mint))) \<rparr>"

definition start :: io where
  "start = \<lparr> clock = 0, trace = [] \<rparr>"

section \<open>Trait statistics\<close>

subsection \<open>The loops of \<^verbatim>\<open>countTraits\<close>\<close>

lemma set_Set_add: "set (Set_add x s) = insert x (set s)"
  by (auto simp: Set_add_def)

lemma distinct_Set_add: "distinct s \<Longrightarrow> distinct (Set_add x s)"
  by (simp add: Set_add_def)

lemma set_fold_Set_add: "set (fold Set_add xs s) = set xs \<union> set s"
  by (induction xs arbitrary: s) (auto simp: set_Set_add)

lemma distinct_fold_Set_add: "distinct s \<Longrightarrow> distinct (fold Set_add xs s)"
  by (induction xs arbitrary: s) (auto simp: distinct_Set_add)

lemma set_collect_fold:
  "set (fold (\<lambda>nft tt. fold Set_add (map fst (traits nft)) tt) nfts s)
     = set s \<union> (\<Union>nft \<in> set nfts. fst ` set (traits nft))"
  by (induction nfts arbitrary: s) (auto simp: set_fold_Set_add)

lemma distinct_collect_fold:
  "distinct s \<Longrightarrow> distinct (fold (\<lambda>nft tt. fold Set_add (map fst (traits nft)) tt) nfts s)"
  by (induction nfts arbitrary: s) (auto simp: distinct_fold_Set_add)

lemma set_collectTraitTypes:
  "set (collectTraitTypes nfts) = (\<Union>nft \<in> set nfts. fst ` set (traits nft))"
  by (simp add: collectTraitTypes_def set_collect_fold)

lemma distinct_collectTraitTypes: "distinct (collectTraitTypes nfts)"
  by (simp add: collectTraitTypes_def distinct_collect_fold)

lemma map_of_init_fold:
  "map_of (fold (\<lambda>type tc. AList.update type [] tc) tts tc0) t
     = (if t \<in> set tts then Some [] else map_of tc0 t)"
  by (induction tts arbitrary: tc0) (auto simp: update_conv')

lemma map_of_initCounts:
  "map_of (initCounts tts) t = (if t \<in> set tts then Some [] else None)"
  by (simp add: initCounts_def map_of_init_fold)

lemma lookupCount_countValue:
  assumes "map_of tc type = Some m"
  shows "\<exists>tc'. countValue type v tc = Some tc' \<and> dom (map_of tc') = dom (map_of tc) \<and>
           (\<forall>t w. lookupCount tc' t w =
              (if t = type \<and> w = v then Some (storedCount tc t w + 1) else lookupCount tc t w))"
  using assms
  by (auto simp: countValue_def lookupCount_def storedCount_def update_conv' split: option.splits)

lemma forEach_types:
  assumes "distinct tts" "set tts \<subseteq> dom (map_of tc)"
  shows "\<exists>tc'. forEach (\<lambda>type. countValue type (f type)) tts tc = Some tc' \<and>
           dom (map_of tc') = dom (map_of tc) \<and>
           (\<forall>t w. lookupCount tc' t w =
              (if t \<in> set tts \<and> w = f t then Some (storedCount tc t w + 1) else lookupCount tc t w))"
  using assms
proof (induction tts arbitrary: tc)
  case Nil
  then show ?case by simp
next
  case (Cons a tts)
  from Cons.prems obtain m where m: "map_of tc a = Some m" by auto
  from lookupCount_countValue [OF m, of "f a"] obtain tc1 where
    s1: "countValue a (f a) tc = Some tc1" and d1: "dom (map_of tc1) = dom (map_of tc)" and
    l1: "\<And>t w. lookupCount tc1 t w =
              (if t = a \<and> w = f a then Some (storedCount tc t w + 1) else lookupCount tc t w)"
    by blast
  from Cons.prems d1 have "distinct tts" "set tts \<subseteq> dom (map_of tc1)" by auto
  from Cons.IH [OF this] obtain tc2 where
    s2: "forEach (\<lambda>type. countValue type (f type)) tts tc1 = Some tc2" and
    d2: "dom (map_of tc2) = dom (map_of tc1)" and
    l2: "\<And>t w. lookupCount tc2 t w =
              (if t \<in> set tts \<and> w = f t then Some (storedCount tc1 t w + 1) else lookupCount tc1 t w)"
    by blast
  have "a \<notin> set tts" using Cons.prems by simp
  then have "\<forall>t w. lookupCount tc2 t w =
              (if t \<in> set (a # tts) \<and> w = f t then Some (storedCount tc t w + 1) else lookupCount tc t w)"
    by (auto simp: l2 l1 storedCount_def)
  with s1 s2 d1 d2 show ?case by simp
qed

lemma countOccurrences_lookup:
  assumes "distinct tts" "set tts \<subseteq> dom (map_of tc)"
  shows "\<exists>tc'. countOccurrences tts nfts tc = Some tc' \<and>
           dom (map_of tc') = dom (map_of tc) \<and>
           (\<forall>t w. lookupCount tc' t w =
              (if t \<in> set tts \<and> filter (\<lambda>n. traitValue n t = w) nfts \<noteq> []
               then Some (storedCount tc t w + length (filter (\<lambda>n. traitValue n t = w) nfts))
               else lookupCount tc t w))"
  using assms
proof (induction nfts arbitrary: tc)
  case Nil
  then show ?case by (simp add: countOccurrences_def)
next
  case (Cons n nfts)
  from forEach_types [OF Cons.prems, of "traitValue n"] obtain tc1 where
    s1: "forEach (\<lambda>type. countValue type (traitValue n type)) tts tc = Some tc1" and
    d1: "dom (map_of tc1) = dom (map_of tc)" and
    l1: "\<And>t w. lookupCount tc1 t w =
              (if t \<in> set tts \<and> w = traitValue n t then Some (storedCount tc t w + 1)
               else lookupCount tc t w)"
    by blast
  from Cons.prems d1 have "distinct tts" "set tts \<subseteq> dom (map_of tc1)" by auto
  from Cons.IH [OF this] obtain tc2 where
    s2: "countOccurrences tts nfts tc1 = Some tc2" and
    d2: "dom (map_of tc2) = dom (map_of tc1)" and
    l2: "\<And>t w. lookupCount tc2 t w =
              (if t \<in> set tts \<and> filter (\<lambda>n. traitValue n t = w) nfts \<noteq> []
               then Some (storedCount tc1 t w + length (filter (\<lambda>n. traitValue n t = w) nfts))
               else lookupCount tc1 t w)"
    by blast
  have s: "countOccurrences tts (n # nfts) tc = Some tc2"
    using s1 s2 by (simp add: countOccurrences_def)
  have "\<forall>t w. lookupCount tc2 t w =
              (if t \<in> set tts \<and> filter (\<lambda>n. traitValue n t = w) (n # nfts) \<noteq> []
               then Some (storedCount tc t w + length (filter (\<lambda>n. traitValue n t = w) (n # nfts)))
               else lookupCount tc t w)"
    by (auto simp: l2 l1 storedCount_def)
  with s d1 d2 show ?case by simp
qed

lemma addPercentages_fold:
  assumes "set tts \<subseteq> dom (map_of tc)"
  shows "\<exists>stats. forEach (\<lambda>type acc.
        case map_of tc type of
          None \<Rightarrow> None
        | Some m \<Rightarrow>
            Some (AList.update type
                    (map (\<lambda>(v, c). (v, \<lparr> countN = c, percentage = percentageOf c tot \<rparr>)) m)
                    acc))
       tts acc0 = Some stats \<and>
     (\<forall>t. map_of stats t =
        (if t \<in> set tts
         then map_option (map (\<lambda>(v, c). (v, \<lparr> countN = c, percentage = percentageOf c tot \<rparr>)))
                (map_of tc t)
         else map_of acc0 t))"
  using assms
proof (induction tts arbitrary: acc0)
  case Nil
  then show ?case by simp
next
  case (Cons a tts)
  let ?g = "map (\<lambda>(v, c). (v, \<lparr> countN = c, percentage = percentageOf c tot \<rparr>))"
  let ?f = "\<lambda>type acc. case map_of tc type of None \<Rightarrow> None
              | Some m \<Rightarrow> Some (AList.update type (?g m) acc)"
  from Cons.prems obtain m where m: "map_of tc a = Some m" by auto
  from Cons.prems have "set tts \<subseteq> dom (map_of tc)" by simp
  from Cons.IH [OF this, of "AList.update a (?g m) acc0"] obtain stats where
    s: "forEach ?f tts (AList.update a (?g m) acc0) = Some stats" and
    l: "\<And>t. map_of stats t =
          (if t \<in> set tts then map_option ?g (map_of tc t)
           else map_of (AList.update a (?g m) acc0) t)"
    by blast
  have s': "forEach ?f (a # tts) acc0 = Some stats"
    using s m by simp
  have "\<forall>t. map_of stats t =
          (if t \<in> set (a # tts) then map_option ?g (map_of tc t) else map_of acc0 t)"
    using m by (simp add: l update_conv')
  with s' show ?case by blast
qed

lemma addPercentages_lookup:
  assumes "set tts \<subseteq> dom (map_of tc)"
  shows "\<exists>stats. addPercentages tot tts tc = Some stats \<and>
           dom (map_of stats) = set tts \<and>
           (\<forall>t w. t \<in> set tts \<longrightarrow> lookupCount stats t w =
              map_option (\<lambda>c. \<lparr> countN = c, percentage = percentageOf c tot \<rparr>) (lookupCount tc t w))"
proof -
  from addPercentages_fold [OF assms, of tot "[]"] obtain stats where
    s: "addPercentages tot tts tc = Some stats" and
    l: "\<And>t. map_of stats t =
        (if t \<in> set tts
         then map_option (map (\<lambda>(v, c). (v, \<lparr> countN = c, percentage = percentageOf c tot \<rparr>)))
                (map_of tc t)
         else None)"
    unfolding addPercentages_def by auto
  have d: "dom (map_of stats) = set tts"
    using assms by (auto simp: l dom_def split: if_splits)
  have "\<forall>t w. t \<in> set tts \<longrightarrow> lookupCount stats t w =
              map_option (\<lambda>c. \<lparr> countN = c, percentage = percentageOf c tot \<rparr>) (lookupCount tc t w)"
    by (auto simp: lookupCount_def l map_of_map split: option.splits)
  with s d show ?thesis by blast
qed

text \<open>
  \<^verbatim>\<open>countTraits\<close> never throws, and the entry of a value is the number of items with
  that value together with the rounded percentage.
\<close>

lemma countTraits_lookup:
  "\<exists>ta. countTraits nfts = Some ta \<and>
     traitTypes ta = collectTraitTypes nfts \<and>
     dom (map_of (traitCounts ta)) = set (traitTypes ta) \<and>
     (\<forall>t w. t \<in> set (traitTypes ta) \<longrightarrow> lookupCount (traitCounts ta) t w =
        (if filter (\<lambda>n. traitValue n t = w) nfts = [] then None
         else Some \<lparr> countN = length (filter (\<lambda>n. traitValue n t = w) nfts),
                     percentage = percentageOf (length (filter (\<lambda>n. traitValue n t = w) nfts))
                                    (length nfts) \<rparr>))"
proof -
  let ?tts = "collectTraitTypes nfts"
  have dom0: "set ?tts \<subseteq> dom (map_of (initCounts ?tts))"
    by (auto simp: map_of_initCounts)
  from countOccurrences_lookup [OF distinct_collectTraitTypes dom0, of nfts] obtain tc where
    s1: "countOccurrences ?tts nfts (initCounts ?tts) = Some tc" and
    d1: "dom (map_of tc) = dom (map_of (initCounts ?tts))" and
    l1: "\<And>t w. lookupCount tc t w =
              (if t \<in> set ?tts \<and> filter (\<lambda>n. traitValue n t = w) nfts \<noteq> []
               then Some (storedCount (initCounts ?tts) t w + length (filter (\<lambda>n. traitValue n t = w) nfts))
               else lookupCount (initCounts ?tts) t w)"
    by blast
  have z: "\<And>t w. lookupCount (initCounts ?tts) t w = None"
    by (simp add: lookupCount_def map_of_initCounts)
  from dom0 d1 have "set ?tts \<subseteq> dom (map_of tc)" by simp
  from addPercentages_lookup [OF this, of "length nfts"] obtain stats where
    s2: "addPercentages (length nfts) ?tts tc = Some stats" and
    d2: "dom (map_of stats) = set ?tts" and
    l2: "\<And>t w. t \<in> set ?tts \<Longrightarrow> lookupCount stats t w =
              map_option (\<lambda>c. \<lparr> countN = c, percentage = percentageOf c (length nfts) \<rparr>) (lookupCount tc t w)"
    by blast
  have s: "countTraits nfts = Some \<lparr> traitCounts = stats, traitTypes = ?tts \<rparr>"
    using s1 s2 by (simp add: countTraits_def)
  show ?thesis
    unfolding s using d2 by (auto simp: l2 l1 z storedCount_def)
qed

text \<open>
  So every result of \<^verbatim>\<open>countTraits\<close> has a table for each of its trait types, which is
  what \<^verbatim>\<open>findRareNFTs\<close> needs in order not to throw.
\<close>

lemma countTraits_wellformed:
  assumes "countTraits nfts = Some ta"
  shows "set (traitTypes ta) \<subseteq> dom (map_of (traitCounts ta))"
  using countTraits_lookup [of nfts] assms by auto

lemma length_filter_mset_cong:
  assumes "mset xs = mset ys"
  shows "length (filter P xs) = length (filter P ys)"
proof -
  have "mset (filter P xs) = mset (filter P ys)"
    using assms by simp
  then show ?thesis by (rule mset_eq_length)
qed




subsection \<open>Claim C3\<close>




subsection \<open>Claim C8\<close>

text \<open>
  Claim C8. \<^verbatim>\<open>countTraits\<close> of a permutation of a list returns the same statistics: the
  same set of trait types and, under every trait type, the same mapping from values to
  count and percentage.
\<close>

theorem countTraits_order_independent:
  assumes "mset nfts' = mset nfts"
  shows "\<exists>ta ta'. countTraits nfts = Some ta \<and> countTraits nfts' = Some ta' \<and>
           set (traitTypes ta') = set (traitTypes ta) \<and>
           (\<forall>type. map_option map_of (map_of (traitCounts ta') type) =
                    map_option map_of (map_of (traitCounts ta) type))"
proof -
  from countTraits_lookup [of nfts] obtain ta where
    s: "countTraits nfts = Some ta" and
    tt: "traitTypes ta = collectTraitTypes nfts" and
    d: "dom (map_of (traitCounts ta)) = set (traitTypes ta)" and
    l: "\<And>t w. t \<in> set (traitTypes ta) \<Longrightarrow> lookupCount (traitCounts ta) t w =
        (if filter (\<lambda>n. traitValue n t = w) nfts = [] then None
         else Some \<lparr> countN = length (filter (\<lambda>n. traitValue n t = w) nfts),
                     percentage = percentageOf (length (filter (\<lambda>n. traitValue n t = w) nfts))
                                    (length nfts) \<rparr>)"
    by blast
  from countTraits_lookup [of nfts'] obtain ta' where
    s': "countTraits nfts' = Some ta'" and
    tt': "traitTypes ta' = collectTraitTypes nfts'" and
    d': "dom (map_of (traitCounts ta')) = set (traitTypes ta')" and
    l': "\<And>t w. t \<in> set (traitTypes ta') \<Longrightarrow> lookupCount (traitCounts ta') t w =
        (if filter (\<lambda>n. traitValue n t = w) nfts' = [] then None
         else Some \<lparr> countN = length (filter (\<lambda>n. traitValue n t = w) nfts'),
                     percentage = percentageOf (length (filter (\<lambda>n. traitValue n t = w) nfts'))
                                    (length nfts') \<rparr>)"
    by blast
  have set_eq: "set nfts' = set nfts" using assms by (rule mset_eq_setD)
  have len: "length nfts' = length nfts" using assms by (rule mset_eq_length)
  have flen: "length (filter P nfts') = length (filter P nfts)" for P
    using assms by (rule length_filter_mset_cong)
  have fnil: "filter P nfts' = [] \<longleftrightarrow> filter P nfts = []" for P
    using flen [of P] by (metis length_0_conv)
  have types: "set (traitTypes ta') = set (traitTypes ta)"
    by (simp add: tt tt' set_collectTraitTypes set_eq)
  have "map_option map_of (map_of (traitCounts ta') t) =
        map_option map_of (map_of (traitCounts ta) t)" for t
  proof (cases "t \<in> set (traitTypes ta)")
    case False
    with d have "map_of (traitCounts ta) t = None" by (metis domIff)
    moreover from False d' types have "map_of (traitCounts ta') t = None" by (metis domIff)
    ultimately show ?thesis by simp
  next
    case True
    with d obtain m where m: "map_of (traitCounts ta) t = Some m" by blast
    from True types d' obtain m' where m': "map_of (traitCounts ta') t = Some m'" by blast
    have "map_of m' w = map_of m w" for w
      using l [OF True, of w] l' [of t w] True types m m'
      by (simp add: lookupCount_def flen fnil len)
    then have "map_of m' = map_of m" by (rule ext)
    with m m' show ?thesis by simp
  qed
  with s s' types show ?thesis by blast
qed

text \<open>
  The order of the array \<^verbatim>\<open>traitTypes\<close>, which is returned next to the statistics, is
  the order in which the items show the types.
\<close>

lemma traitTypes_follow_input_order:
  "map_option traitTypes (countTraits two_types) = Some [''Hat'', ''Eyes''] \<and>
   map_option traitTypes (countTraits (rev two_types)) = Some [''Eyes'', ''Hat'']"
  by code_simp

text \<open>
  The theorem at a list of two items and its reverse.
\<close>

theorem countTraits_order_independent_witness:
  "mset (rev two_types) = mset two_types \<and>
   (\<exists>ta ta'. countTraits two_types = Some ta \<and> countTraits (rev two_types) = Some ta' \<and>
      set (traitTypes ta') = set (traitTypes ta) \<and>
      (\<forall>type. map_option map_of (map_of (traitCounts ta') type) =
               map_option map_of (map_of (traitCounts ta) type)))"
proof -
  have m: "mset (rev two_types) = mset two_types" by simp
  from m countTraits_order_independent [OF m] show ?thesis by (rule conjI)
qed

section \<open>Classification\<close>

subsection \<open>The loops of \<^verbatim>\<open>findRareNFTs\<close>\<close>

lemma checkTrait_eq:
  assumes "map_of (traitCounts ta) type = Some m"
  shows "checkTrait cfg ta nft type (r, d) =
           (case map_of m (traitValue nft type) of
              None \<Rightarrow> Some (r, d)
            | Some ts \<Rightarrow> Some (r \<or> rareStat cfg ts,
                           AList.update type (detailOf cfg (traitValue nft type) ts) d))"
  using assms
  by (auto simp: checkTrait_def rareStat_def detailOf_def Let_def split: option.splits)

lemma forEach_checkTrait:
  assumes "set tts \<subseteq> dom (map_of (traitCounts ta))"
  shows "\<exists>r' d'. forEach (checkTrait cfg ta nft) tts (r, d) = Some (r', d') \<and>
           (\<forall>t. map_of d' t =
              (if t \<in> set tts
               then (case lookupCount (traitCounts ta) t (traitValue nft t) of
                       None \<Rightarrow> map_of d t
                     | Some ts \<Rightarrow> Some (detailOf cfg (traitValue nft t) ts))
               else map_of d t)) \<and>
           (r' \<longleftrightarrow> r \<or> (\<exists>t \<in> set tts. \<exists>ts. lookupCount (traitCounts ta) t (traitValue nft t) = Some ts
                             \<and> rareStat cfg ts))"
  using assms
proof (induction tts arbitrary: r d)
  case Nil
  then show ?case by simp
next
  case (Cons a tts)
  from Cons.prems obtain m where m: "map_of (traitCounts ta) a = Some m" by auto
  from Cons.prems have sub: "set tts \<subseteq> dom (map_of (traitCounts ta))" by simp
  have "\<exists>r1 d1. checkTrait cfg ta nft a (r, d) = Some (r1, d1) \<and>
      (r1 \<longleftrightarrow> r \<or> (\<exists>ts. lookupCount (traitCounts ta) a (traitValue nft a) = Some ts \<and> rareStat cfg ts)) \<and>
      (\<forall>t. map_of d1 t =
               (if t = a then (case lookupCount (traitCounts ta) a (traitValue nft a) of
                       None \<Rightarrow> map_of d t
                     | Some ts \<Rightarrow> Some (detailOf cfg (traitValue nft a) ts))
                else map_of d t))"
  proof (cases "map_of m (traitValue nft a)")
    case None
    then show ?thesis using m by (simp add: checkTrait_eq [OF m] lookupCount_def)
  next
    case (Some ts)
    then show ?thesis using m by (simp add: checkTrait_eq [OF m] lookupCount_def update_conv')
  qed
  then obtain r1 d1 where c: "checkTrait cfg ta nft a (r, d) = Some (r1, d1)"
    and r1: "r1 \<longleftrightarrow> r \<or> (\<exists>ts. lookupCount (traitCounts ta) a (traitValue nft a) = Some ts \<and> rareStat cfg ts)"
    and d1: "\<And>t. map_of d1 t =
               (if t = a then (case lookupCount (traitCounts ta) a (traitValue nft a) of
                       None \<Rightarrow> map_of d t
                     | Some ts \<Rightarrow> Some (detailOf cfg (traitValue nft a) ts))
                else map_of d t)"
    by blast
  from Cons.IH [OF sub, of r1 d1] obtain r2 d2 where
    f: "forEach (checkTrait cfg ta nft) tts (r1, d1) = Some (r2, d2)" and
    d2: "\<And>t. map_of d2 t =
              (if t \<in> set tts
               then (case lookupCount (traitCounts ta) t (traitValue nft t) of
                       None \<Rightarrow> map_of d1 t
                     | Some ts \<Rightarrow> Some (detailOf cfg (traitValue nft t) ts))
               else map_of d1 t)" and
    r2: "r2 \<longleftrightarrow> r1 \<or> (\<exists>t \<in> set tts. \<exists>ts. lookupCount (traitCounts ta) t (traitValue nft t) = Some ts
                             \<and> rareStat cfg ts)"
    by blast
  have f': "forEach (checkTrait cfg ta nft) (a # tts) (r, d) = Some (r2, d2)"
    using c f by simp
  have d': "\<forall>t. map_of d2 t =
              (if t \<in> set (a # tts)
               then (case lookupCount (traitCounts ta) t (traitValue nft t) of
                       None \<Rightarrow> map_of d t
                     | Some ts \<Rightarrow> Some (detailOf cfg (traitValue nft t) ts))
               else map_of d t)"
    by (auto simp: d2 d1 split: option.splits)
  have r': "r2 \<longleftrightarrow> r \<or> (\<exists>t \<in> set (a # tts). \<exists>ts. lookupCount (traitCounts ta) t (traitValue nft t) = Some ts
                             \<and> rareStat cfg ts)"
    using r2 r1 by auto
  from f' d' r' show ?case by blast
qed

lemma classifyNFT_lookup:
  assumes "set (traitTypes ta) \<subseteq> dom (map_of (traitCounts ta))"
  shows "\<exists>r d. classifyNFT cfg ta nft = Some (r, d) \<and>
           (\<forall>t. map_of d t =
              (if t \<in> set (traitTypes ta)
               then map_option (detailOf cfg (traitValue nft t))
                      (lookupCount (traitCounts ta) t (traitValue nft t))
               else None)) \<and>
           (r \<longleftrightarrow> (\<exists>t \<in> set (traitTypes ta). \<exists>ts.
                    lookupCount (traitCounts ta) t (traitValue nft t) = Some ts \<and> rareStat cfg ts))"
proof -
  from forEach_checkTrait [OF assms, of cfg nft False "[]"] obtain r d where
    c: "classifyNFT cfg ta nft = Some (r, d)" and
    d: "\<And>t. map_of d t =
              (if t \<in> set (traitTypes ta)
               then (case lookupCount (traitCounts ta) t (traitValue nft t) of
                       None \<Rightarrow> map_of [] t
                     | Some ts \<Rightarrow> Some (detailOf cfg (traitValue nft t) ts))
               else map_of [] t)" and
    r: "r \<longleftrightarrow> False \<or> (\<exists>t \<in> set (traitTypes ta). \<exists>ts.
                    lookupCount (traitCounts ta) t (traitValue nft t) = Some ts \<and> rareStat cfg ts)"
    unfolding classifyNFT_def by blast
  have "\<forall>t. map_of d t =
              (if t \<in> set (traitTypes ta)
               then map_option (detailOf cfg (traitValue nft t))
                      (lookupCount (traitCounts ta) t (traitValue nft t))
               else None)"
    by (auto simp: d split: option.splits)
  with c r show ?thesis by blast
qed

lemma forEach_findRareStep:
  assumes "\<forall>n \<in> set nfts. classifyNFT cfg ta n \<noteq> None"
  shows "forEach (findRareStep cfg ta) nfts (acc, rs) =
           Some (acc @ map (markNFT cfg ta) nfts,
                 rs @ map (markNFT cfg ta) (filter (isRareNFT cfg ta) nfts))"
  using assms
proof (induction nfts arbitrary: acc rs)
  case Nil
  then show ?case by simp
next
  case (Cons n nfts)
  from Cons.prems obtain r d where c: "classifyNFT cfg ta n = Some (r, d)" by auto
  have step: "findRareStep cfg ta n (acc, rs) =
          Some (acc @ [markNFT cfg ta n], rs @ map (markNFT cfg ta) (filter (isRareNFT cfg ta) [n]))"
    using c by (cases r) (simp_all add: findRareStep_def markNFT_def isRareNFT_def)
  from Cons.prems have "\<forall>n \<in> set nfts. classifyNFT cfg ta n \<noteq> None" by simp
  from Cons.IH [OF this] step show ?case by simp
qed

lemma forEach_findRareStep_Some:
  assumes "forEach (findRareStep cfg ta) nfts st = Some st'"
  shows "\<forall>n \<in> set nfts. classifyNFT cfg ta n \<noteq> None"
  using assms
proof (induction nfts arbitrary: st)
  case Nil
  then show ?case by simp
next
  case (Cons n nfts)
  then show ?case
    by (cases st) (auto simp: findRareStep_def split: option.splits if_splits)
qed

lemma findRareNFTs_eq:
  assumes "\<forall>n \<in> set nfts. classifyNFT cfg ta n \<noteq> None"
  shows "findRareNFTs cfg ta nfts =
           Some (map (markNFT cfg ta) nfts, map (markNFT cfg ta) (filter (isRareNFT cfg ta) nfts))"
  using forEach_findRareStep [OF assms, of "[]" "[]"] by (simp add: findRareNFTs_def)

lemma traitValue_rarity_update: "traitValue (nft\<lparr>rarity := d\<rparr>) type = traitValue nft type"
  by (simp add: traitValue_def)

lemma classifyNFT_rarity_update: "classifyNFT cfg ta (nft\<lparr>rarity := d\<rparr>) = classifyNFT cfg ta nft"
proof -
  have "checkTrait cfg ta (nft\<lparr>rarity := d\<rparr>) = checkTrait cfg ta nft"
    by (intro ext) (simp only: checkTrait_def traitValue_rarity_update)
  then show ?thesis by (simp add: classifyNFT_def)
qed

lemma classifyNFT_markNFT: "classifyNFT cfg ta (markNFT cfg ta nft) = classifyNFT cfg ta nft"
  by (simp add: markNFT_def classifyNFT_rarity_update split: option.splits bool.splits)

lemma markNFT_idem: "markNFT cfg ta (markNFT cfg ta nft) = markNFT cfg ta nft"
  unfolding markNFT_def [of cfg ta "markNFT cfg ta nft"] classifyNFT_markNFT
  by (simp add: markNFT_def split: option.splits bool.splits)

lemma isRareNFT_markNFT: "isRareNFT cfg ta (markNFT cfg ta nft) = isRareNFT cfg ta nft"
  by (simp add: isRareNFT_def classifyNFT_markNFT)

lemma hats_analysis_wf: "set (traitTypes hats_analysis) \<subseteq> dom (map_of (traitCounts hats_analysis))"
  by (simp add: hats_analysis_def)

lemma findRareNFTs_three_hats:
  "findRareNFTs sample_config hats_analysis three_hats =
     Some ([item ''m1'' [(''Hat'', ''red'')],
            (item ''m2'' [(''Hat'', ''blue'')])
              \<lparr>rarity := [(''Hat'', \<lparr> countN = 1, percentage = 3333 / 100, val = ''blue'',
                                      rare = True, reason = Some OneOfOne \<rparr>),
                           (''Eyes'', \<lparr> countN = 2, percentage = 6667 / 100, val = ''None'',
                                       rare = False, reason = None \<rparr>)]\<rparr>,
            (item ''m3'' [(''Hat'', ''red''), (''Eyes'', ''laser'')])
              \<lparr>rarity := [(''Hat'', \<lparr> countN = 2, percentage = 6667 / 100, val = ''red'',
                                      rare = False, reason = None \<rparr>),
                           (''Eyes'', \<lparr> countN = 1, percentage = 3333 / 100, val = ''laser'',
                                       rare = True, reason = Some OneOfOne \<rparr>)]\<rparr>],
           [(item ''m2'' [(''Hat'', ''blue'')])
              \<lparr>rarity := [(''Hat'', \<lparr> countN = 1, percentage = 3333 / 100, val = ''blue'',
                                      rare = True, reason = Some OneOfOne \<rparr>),
                           (''Eyes'', \<lparr> countN = 2, percentage = 6667 / 100, val = ''None'',
                                       rare = False, reason = None \<rparr>)]\<rparr>,
            (item ''m3'' [(''Hat'', ''red''), (''Eyes'', ''laser'')])
              \<lparr>rarity := [(''Hat'', \<lparr> countN = 2, percentage = 6667 / 100, val = ''red'',
                                      rare = False, reason = None \<rparr>),
                           (''Eyes'', \<lparr> countN = 1, percentage = 3333 / 100, val = ''laser'',
                                       rare = True, reason = Some OneOfOne \<rparr>)]\<rparr>])"
  by code_simp


subsection \<open>Claim C1\<close>

text \<open>
  Claim C1. Let every trait type of the analysis have a table (as in every result of
  \<^verbatim>\<open>countTraits\<close>; otherwise \<^verbatim>\<open>findRareNFTs\<close> throws). Then \<^verbatim>\<open>findRareNFTs\<close> returns, and
  for every item and every trait type whose table has statistics for the value of the
  item, the annotation of that trait carries the value and the statistics and is rare
  exactly when one-of-one is enabled and the count is 1, or the percentage is at most
  the threshold; the reason is one-of-one in the first case, also when both hold. The
  item is rare exactly when one of its annotations is, and the returned list consists
  of the rare items, in order, each with its annotations.
\<close>

theorem findRareNFTs_marks_rare:
  assumes "set (traitTypes ta) \<subseteq> dom (map_of (traitCounts ta))"
  shows "\<exists>nfts' rareNFTs. findRareNFTs cfg ta nfts = Some (nfts', rareNFTs) \<and>
     rareNFTs = concat (map (\<lambda>nft. case classifyNFT cfg ta nft of
                                      Some (True, d) \<Rightarrow> [nft\<lparr>rarity := d\<rparr>]
                                    | _ \<Rightarrow> []) nfts) \<and>
     (\<forall>nft \<in> set nfts. \<exists>isRare details. classifyNFT cfg ta nft = Some (isRare, details) \<and>
        (\<forall>type \<in> set (traitTypes ta). \<forall>m ts.
           map_of (traitCounts ta) type = Some m \<and> map_of m (traitValue nft type) = Some ts \<longrightarrow>
           (\<exists>d. map_of details type = Some d \<and>
              val d = traitValue nft type \<and> countN d = countN ts \<and> percentage d = percentage ts \<and>
              (rare d \<longleftrightarrow> oneOfOneThreshold cfg \<and> countN ts = 1 \<or>
                             percentage ts \<le> percentThreshold cfg) \<and>
              reason d = (if oneOfOneThreshold cfg \<and> countN ts = 1 then Some OneOfOne
                          else if percentage ts \<le> percentThreshold cfg
                          then Some (BelowThreshold (percentThreshold cfg)) else None))) \<and>
        (isRare \<longleftrightarrow> (\<exists>type d. map_of details type = Some d \<and> rare d)))"
proof -
  have cl: "\<exists>isRare details. classifyNFT cfg ta nft = Some (isRare, details) \<and>
        (\<forall>type \<in> set (traitTypes ta). \<forall>m ts.
           map_of (traitCounts ta) type = Some m \<and> map_of m (traitValue nft type) = Some ts \<longrightarrow>
           (\<exists>d. map_of details type = Some d \<and>
              val d = traitValue nft type \<and> countN d = countN ts \<and> percentage d = percentage ts \<and>
              (rare d \<longleftrightarrow> oneOfOneThreshold cfg \<and> countN ts = 1 \<or>
                             percentage ts \<le> percentThreshold cfg) \<and>
              reason d = (if oneOfOneThreshold cfg \<and> countN ts = 1 then Some OneOfOne
                          else if percentage ts \<le> percentThreshold cfg
                          then Some (BelowThreshold (percentThreshold cfg)) else None))) \<and>
        (isRare \<longleftrightarrow> (\<exists>type d. map_of details type = Some d \<and> rare d))" for nft
  proof -
    from classifyNFT_lookup [OF assms, of cfg nft] obtain r d where
      c: "classifyNFT cfg ta nft = Some (r, d)" and
      d: "\<And>t. map_of d t =
              (if t \<in> set (traitTypes ta)
               then map_option (detailOf cfg (traitValue nft t))
                      (lookupCount (traitCounts ta) t (traitValue nft t))
               else None)" and
      r: "r \<longleftrightarrow> (\<exists>t \<in> set (traitTypes ta). \<exists>ts.
                    lookupCount (traitCounts ta) t (traitValue nft t) = Some ts \<and> rareStat cfg ts)"
      by blast
    have a: "\<forall>type \<in> set (traitTypes ta). \<forall>m ts.
           map_of (traitCounts ta) type = Some m \<and> map_of m (traitValue nft type) = Some ts \<longrightarrow>
           (\<exists>x. map_of d type = Some x \<and>
              val x = traitValue nft type \<and> countN x = countN ts \<and> percentage x = percentage ts \<and>
              (rare x \<longleftrightarrow> oneOfOneThreshold cfg \<and> countN ts = 1 \<or>
                             percentage ts \<le> percentThreshold cfg) \<and>
              reason x = (if oneOfOneThreshold cfg \<and> countN ts = 1 then Some OneOfOne
                          else if percentage ts \<le> percentThreshold cfg
                          then Some (BelowThreshold (percentThreshold cfg)) else None))"
      by (simp add: d lookupCount_def detailOf_def rareStat_def)
    have b: "r \<longleftrightarrow> (\<exists>type x. map_of d type = Some x \<and> rare x)"
    proof
      assume r
      with r obtain t ts where "t \<in> set (traitTypes ta)"
        "lookupCount (traitCounts ta) t (traitValue nft t) = Some ts" "rareStat cfg ts"
        by blast
      then have "map_of d t = Some (detailOf cfg (traitValue nft t) ts) \<and>
                 rare (detailOf cfg (traitValue nft t) ts)"
        by (simp add: d detailOf_def)
      then show "\<exists>type x. map_of d type = Some x \<and> rare x" by blast
    next
      assume "\<exists>type x. map_of d type = Some x \<and> rare x"
      then obtain t x where x: "map_of d t = Some x" "rare x" by blast
      then have t: "t \<in> set (traitTypes ta)" by (simp add: d split: if_splits)
      with x obtain ts where "lookupCount (traitCounts ta) t (traitValue nft t) = Some ts"
        "x = detailOf cfg (traitValue nft t) ts"
        by (auto simp: d)
      with x t show r unfolding r by (auto simp: detailOf_def)
    qed
    from c a b show ?thesis by blast
  qed
  then have "\<forall>n \<in> set nfts. classifyNFT cfg ta n \<noteq> None" by fastforce
  from findRareNFTs_eq [OF this] have
    f: "findRareNFTs cfg ta nfts =
           Some (map (markNFT cfg ta) nfts, map (markNFT cfg ta) (filter (isRareNFT cfg ta) nfts))" .
  have "map (markNFT cfg ta) (filter (isRareNFT cfg ta) xs) =
          concat (map (\<lambda>nft. case classifyNFT cfg ta nft of
                                      Some (True, d) \<Rightarrow> [nft\<lparr>rarity := d\<rparr>]
                                    | _ \<Rightarrow> []) xs)" for xs
    by (induction xs) (auto simp: markNFT_def isRareNFT_def split: option.splits bool.splits)
  with f cl show ?thesis by simp
qed

text \<open>
  The theorem at the three items with hats: the second and the third item are
  returned.
\<close>

theorem findRareNFTs_marks_rare_witness:
  "set (traitTypes hats_analysis) \<subseteq> dom (map_of (traitCounts hats_analysis)) \<and>
   (\<exists>nfts' rareNFTs. findRareNFTs sample_config hats_analysis three_hats = Some (nfts', rareNFTs) \<and>
      map mintAddress rareNFTs = [''m2'', ''m3''])"
proof -
  have "\<exists>nfts' rareNFTs.
          findRareNFTs sample_config hats_analysis three_hats = Some (nfts', rareNFTs)"
    using findRareNFTs_marks_rare [OF hats_analysis_wf, of sample_config three_hats]
    by (elim exE conjE) (intro exI, assumption)
  then obtain nfts' rareNFTs where
    f: "findRareNFTs sample_config hats_analysis three_hats = Some (nfts', rareNFTs)"
    by (elim exE)
  from f have "rareNFTs = snd (the (findRareNFTs sample_config hats_analysis three_hats))"
    by simp
  then have "map mintAddress rareNFTs = [''m2'', ''m3'']"
    by (simp add: findRareNFTs_three_hats item_def)
  with f hats_analysis_wf show ?thesis by (intro exI conjI)
qed

subsection \<open>Claim C9\<close>

text \<open>
  Claim C9. When \<^verbatim>\<open>findRareNFTs\<close> has returned, a second call on the same items (as
  the first call left them) with the same statistics leaves them unchanged and returns
  the same list; so does a call on the returned list.
\<close>

theorem findRareNFTs_idempotent:
  assumes "findRareNFTs cfg ta nfts = Some (nfts', rareNFTs)"
  shows "findRareNFTs cfg ta nfts' = Some (nfts', rareNFTs) \<and>
         findRareNFTs cfg ta rareNFTs = Some (rareNFTs, rareNFTs)"
proof -
  from assms have ok: "\<forall>n \<in> set nfts. classifyNFT cfg ta n \<noteq> None"
    unfolding findRareNFTs_def by (rule forEach_findRareStep_Some)
  from findRareNFTs_eq [OF ok] assms have
    n': "nfts' = map (markNFT cfg ta) nfts" and
    rs: "rareNFTs = map (markNFT cfg ta) (filter (isRareNFT cfg ta) nfts)"
    by simp_all
  have flt: "filter (isRareNFT cfg ta) (map (markNFT cfg ta) xs) =
               map (markNFT cfg ta) (filter (isRareNFT cfg ta) xs)" for xs
    by (induction xs) (simp_all add: isRareNFT_markNFT)
  have ok': "\<forall>n \<in> set nfts'. classifyNFT cfg ta n \<noteq> None"
    using ok by (auto simp: n' classifyNFT_markNFT)
  have a: "findRareNFTs cfg ta nfts' = Some (nfts', rareNFTs)"
    unfolding findRareNFTs_eq [OF ok'] by (simp add: n' rs flt markNFT_idem)
  have ok'': "\<forall>n \<in> set rareNFTs. classifyNFT cfg ta n \<noteq> None"
    using ok by (auto simp: rs classifyNFT_markNFT)
  have b: "findRareNFTs cfg ta rareNFTs = Some (rareNFTs, rareNFTs)"
    unfolding findRareNFTs_eq [OF ok''] by (simp add: rs flt markNFT_idem)
  from a b show ?thesis ..
qed

text \<open>
  The theorem at the three items with hats.
\<close>

theorem findRareNFTs_idempotent_witness:
  "\<exists>nfts' rareNFTs. findRareNFTs sample_config hats_analysis three_hats = Some (nfts', rareNFTs) \<and>
     map mintAddress rareNFTs = [''m2'', ''m3''] \<and>
     findRareNFTs sample_config hats_analysis nfts' = Some (nfts', rareNFTs) \<and>
     findRareNFTs sample_config hats_analysis rareNFTs = Some (rareNFTs, rareNFTs)"
  using findRareNFTs_idempotent [OF findRareNFTs_three_hats]
  by (simp add: findRareNFTs_three_hats item_def)

subsection \<open>Claim C10\<close>



section \<open>The cache\<close>

lemma paths_differ: "getCacheFilePath symbol \<noteq> getSeenRareNFTsPath symbol"
proof
  assume "getCacheFilePath symbol = getSeenRareNFTsPath symbol"
  then have "length (getCacheFilePath symbol) = length (getSeenRareNFTsPath symbol)" by simp
  then show False by (simp add: getCacheFilePath_def getSeenRareNFTsPath_def)
qed

subsection \<open>Claim C7\<close>



section \<open>The seen set\<close>

lemma fold_noteRare:
  "\<exists>seen' added. fold noteRare rs (seen, new) = (seen', new @ added) \<and>
     distinct (map mintAddress added) \<and>
     set (map mintAddress added) \<inter> set seen = {} \<and>
     set seen' = set seen \<union> set (map mintAddress added)"
proof (induction rs arbitrary: seen new)
  case Nil
  show ?case by simp
next
  case (Cons r rs)
  show ?case
  proof (cases "mintAddress r \<in> set seen")
    case True
    then have "fold noteRare (r # rs) (seen, new) = fold noteRare rs (seen, new)"
      by (simp add: noteRare_def)
    with Cons.IH [of seen new] show ?thesis by simp
  next
    case False
    then have step: "fold noteRare (r # rs) (seen, new) =
                 fold noteRare rs (Set_add (mintAddress r) seen, new @ [r])"
      by (simp add: noteRare_def)
    from Cons.IH [of "Set_add (mintAddress r) seen" "new @ [r]"] obtain seen' added where
      f: "fold noteRare rs (Set_add (mintAddress r) seen, new @ [r]) = (seen', (new @ [r]) @ added)" and
      d: "distinct (map mintAddress added)" and
      i: "set (map mintAddress added) \<inter> set (Set_add (mintAddress r) seen) = {}" and
      s: "set seen' = set (Set_add (mintAddress r) seen) \<union> set (map mintAddress added)"
      by blast
    have "fold noteRare (r # rs) (seen, new) = (seen', new @ (r # added))"
      using step f by simp
    moreover have "distinct (map mintAddress (r # added))"
      using d i by (auto simp: set_Set_add)
    moreover have "set (map mintAddress (r # added)) \<inter> set seen = {}"
      using i False by (auto simp: set_Set_add)
    moreover have "set seen' = set seen \<union> set (map mintAddress (r # added))"
      using s by (auto simp: set_Set_add)
    ultimately show ?thesis by blast
  qed
qed

lemma reportsOnlyNew_disk: "reportsOnlyNew st (st\<lparr> cacheDisk := d \<rparr>)"
  unfolding reportsOnlyNew_def
  by (intro exI [of _ "[]"]) (simp add: notifiedMints_def)

lemma reportsOnlyNew_refl: "reportsOnlyNew st st"
  using reportsOnlyNew_disk [of st "cacheDisk st"] by simp

lemma reportRare_seen:
  "reportsOnlyNew st (reportRare symbol nm t rs (st\<lparr> cacheDisk := d \<rparr>))"
proof (cases "0 < length rs")
  case False
  then have "reportRare symbol nm t rs (st\<lparr> cacheDisk := d \<rparr>) = st\<lparr> cacheDisk := d \<rparr>"
    by (simp add: reportRare_def)
  then show ?thesis by (simp add: reportsOnlyNew_disk)
next
  case True
  let ?r = "reportRare symbol nm t rs (st\<lparr> cacheDisk := d \<rparr>)"
  from fold_noteRare [of rs "seenRareNFTs st" "[]"] obtain seen' added where
    f: "fold noteRare rs (seenRareNFTs st, []) = (seen', added)" and
    d: "distinct (map mintAddress added)" and
    i: "set (map mintAddress added) \<inter> set (seenRareNFTs st) = {}" and
    s: "set seen' = set (seenRareNFTs st) \<union> set (map mintAddress added)"
    by auto
  show ?thesis
  proof (cases "added = []")
    case True
    with \<open>0 < length rs\<close> f s have
      "notifications ?r = notifications st @ []"
      "set (seenRareNFTs ?r) = set (seenRareNFTs st) \<union> set (notifiedMints [])"
      by (simp_all add: reportRare_def Let_def notifiedMints_def)
    then show ?thesis unfolding reportsOnlyNew_def
      by (intro exI [of _ "[]"]) (simp add: notifiedMints_def)
  next
    case False
    with \<open>0 < length rs\<close> f s have
      "notifications ?r = notifications st @ [(added, nm)]"
      "set (seenRareNFTs ?r) = set (seenRareNFTs st) \<union> set (notifiedMints [(added, nm)])"
      by (simp_all add: reportRare_def Let_def notifiedMints_def)
    with d i show ?thesis unfolding reportsOnlyNew_def
      by (intro exI [of _ "[(added, nm)]"]) (simp add: notifiedMints_def)
  qed
qed

lemma processCollection_seen:
  "reportsOnlyNew st (processCollection cfg symbol c st)"
  unfolding processCollection_def
  by (simp add: Let_def reportsOnlyNew_refl reportsOnlyNew_disk reportRare_seen
        split: option.splits prod.splits)

lemma notifiedMints_append: "notifiedMints (xs @ ys) = notifiedMints xs @ notifiedMints ys"
  by (simp add: notifiedMints_def)

lemma scanCycles_seen:
  "reportsOnlyNew st (scanCycles cfg symbol cs st)"
proof (induction cs arbitrary: st)
  case Nil
  show ?case by (simp add: scanCycles_def reportsOnlyNew_refl)
next
  case (Cons c cs)
  let ?st1 = "processCollection cfg symbol c st"
  from processCollection_seen [of st cfg symbol c] obtain n1 where
    n1: "notifications ?st1 = notifications st @ n1" "distinct (notifiedMints n1)"
      "set (notifiedMints n1) \<inter> set (seenRareNFTs st) = {}"
      "set (seenRareNFTs ?st1) = set (seenRareNFTs st) \<union> set (notifiedMints n1)"
    unfolding reportsOnlyNew_def by blast
  from Cons.IH [of ?st1] obtain n2 where
    n2: "notifications (scanCycles cfg symbol cs ?st1) = notifications ?st1 @ n2"
      "distinct (notifiedMints n2)"
      "set (notifiedMints n2) \<inter> set (seenRareNFTs ?st1) = {}"
      "set (seenRareNFTs (scanCycles cfg symbol cs ?st1)) =
         set (seenRareNFTs ?st1) \<union> set (notifiedMints n2)"
    unfolding reportsOnlyNew_def by blast
  have e: "scanCycles cfg symbol (c # cs) st = scanCycles cfg symbol cs ?st1"
    by (simp add: scanCycles_def)
  have "notifications (scanCycles cfg symbol (c # cs) st) = notifications st @ (n1 @ n2)"
    using n1(1) n2(1) e by simp
  moreover have "distinct (notifiedMints (n1 @ n2))"
    using n1(2,4) n2(2,3) by (auto simp: notifiedMints_append)
  moreover have "set (notifiedMints (n1 @ n2)) \<inter> set (seenRareNFTs st) = {}"
    using n1(3,4) n2(3) by (auto simp: notifiedMints_append)
  moreover have "set (seenRareNFTs (scanCycles cfg symbol (c # cs) st)) =
       set (seenRareNFTs st) \<union> set (notifiedMints (n1 @ n2))"
    using n1(4) n2(4) e by (auto simp: notifiedMints_append)
  ultimately show ?case unfolding reportsOnlyNew_def by blast
qed

lemma scanCycles_append:
  "scanCycles cfg symbol (cs @ cs') st = scanCycles cfg symbol cs' (scanCycles cfg symbol cs st)"
  by (simp add: scanCycles_def)

lemma hats_first_cycle:
  "seenRareNFTs (scanCycles sample_config ''hats'' [hats_cycle] fresh_sniper) = [''m2'', ''m3''] \<and>
   map (\<lambda>(ns, nm). (map mintAddress ns, nm))
     (notifications (scanCycles sample_config ''hats'' [hats_cycle] fresh_sniper)) =
     [([''m2'', ''m3''], ''Hats'')]"
  by code_simp

lemma hats_second_cycle:
  "seenRareNFTs (scanCycles sample_config ''hats'' [hats_cycle, hats_cycle] fresh_sniper) = [''m2'', ''m3''] \<and>
   map (\<lambda>(ns, nm). (map mintAddress ns, nm))
     (notifications (scanCycles sample_config ''hats'' [hats_cycle, hats_cycle] fresh_sniper)) =
     [([''m2'', ''m3''], ''Hats'')]"
  by code_simp

lemma hats_disk_after_clear:
  "files (snd (clearCache (cacheDisk (scanCycles sample_config ''hats'' [hats_cycle] fresh_sniper)) ''hats''))
     (getSeenRareNFTsPath ''hats'') =
     Some \<lparr> mtime = 3000, content = Parsed (MintArray [''m2'', ''m3'']) \<rparr> \<and>
   map_option mtime (files (cacheDisk (scanCycles sample_config ''hats'' [hats_cycle] fresh_sniper))
     (getCacheFilePath ''hats'')) = Some 2000 \<and>
   files (snd (clearCache (cacheDisk (scanCycles sample_config ''hats'' [hats_cycle] fresh_sniper)) ''hats''))
     (getCacheFilePath ''hats'') = None"
  by code_simp

subsection \<open>Claim C2\<close>

text \<open>
  Claim C2. Over every sequence of scan cycles of a collection the seen set only
  grows, also when more cycles follow; the notifications of these cycles name no mint
  address twice and none that was in the seen set before, and the seen set grows by
  exactly the addresses notified. \<^verbatim>\<open>clearCache\<close> changes no file but the snapshot file,
  so it leaves the file of the seen set as it is.
\<close>

theorem seen_set_monotonic:
  "set (seenRareNFTs st) \<subseteq> set (seenRareNFTs (scanCycles cfg symbol cs st)) \<and>
   set (seenRareNFTs (scanCycles cfg symbol cs st))
     \<subseteq> set (seenRareNFTs (scanCycles cfg symbol (cs @ cs') st)) \<and>
   (\<exists>new. notifications (scanCycles cfg symbol cs st) = notifications st @ new \<and>
      distinct (notifiedMints new) \<and>
      set (notifiedMints new) \<inter> set (seenRareNFTs st) = {} \<and>
      set (seenRareNFTs (scanCycles cfg symbol cs st)) =
        set (seenRareNFTs st) \<union> set (notifiedMints new)) \<and>
   files (snd (clearCache d symbol)) (getSeenRareNFTsPath symbol) = files d (getSeenRareNFTsPath symbol) \<and>
   (\<forall>p. p \<noteq> getCacheFilePath symbol \<longrightarrow> files (snd (clearCache d symbol)) p = files d p)"
proof -
  from scanCycles_seen [of st cfg symbol cs]
  have a: "\<exists>new. notifications (scanCycles cfg symbol cs st) = notifications st @ new \<and>
      distinct (notifiedMints new) \<and>
      set (notifiedMints new) \<inter> set (seenRareNFTs st) = {} \<and>
      set (seenRareNFTs (scanCycles cfg symbol cs st)) =
        set (seenRareNFTs st) \<union> set (notifiedMints new)"
    unfolding reportsOnlyNew_def .
  then have b: "set (seenRareNFTs st) \<subseteq> set (seenRareNFTs (scanCycles cfg symbol cs st))"
    by blast
  from scanCycles_seen [of "scanCycles cfg symbol cs st" cfg symbol cs']
  have c: "set (seenRareNFTs (scanCycles cfg symbol cs st))
     \<subseteq> set (seenRareNFTs (scanCycles cfg symbol (cs @ cs') st))"
    unfolding scanCycles_append reportsOnlyNew_def by blast
  have e: "\<forall>p. p \<noteq> getCacheFilePath symbol \<longrightarrow> files (snd (clearCache d symbol)) p = files d p"
    by (simp add: clearCache_def split: option.splits)
  then have f: "files (snd (clearCache d symbol)) (getSeenRareNFTsPath symbol) = files d (getSeenRareNFTsPath symbol)"
    using paths_differ [of symbol] by simp
  from a b c e f show ?thesis by (intro conjI)
qed

text \<open>
  The theorem at two equal cycles from a fresh state: the first cycle notifies the two
  rare items, the second notifies nothing, and clearing the cache keeps the file of
  the seen set.
\<close>

theorem seen_set_monotonic_witness:
  "seenRareNFTs (scanCycles sample_config ''hats'' [hats_cycle] fresh_sniper) = [''m2'', ''m3''] \<and>
   set (seenRareNFTs (scanCycles sample_config ''hats'' [hats_cycle] fresh_sniper))
     \<subseteq> set (seenRareNFTs (scanCycles sample_config ''hats'' ([hats_cycle] @ [hats_cycle]) fresh_sniper)) \<and>
   map (\<lambda>(ns, nm). (map mintAddress ns, nm))
     (notifications (scanCycles sample_config ''hats'' [hats_cycle, hats_cycle] fresh_sniper)) =
     [([''m2'', ''m3''], ''Hats'')] \<and>
   getSeenRareNFTsPath ''hats'' \<noteq> getCacheFilePath ''hats'' \<and>
   files (snd (clearCache (cacheDisk (scanCycles sample_config ''hats'' [hats_cycle] fresh_sniper)) ''hats''))
     (getSeenRareNFTsPath ''hats'') =
     Some \<lparr> mtime = 3000, content = Parsed (MintArray [''m2'', ''m3'']) \<rparr>"
proof -
  note t = seen_set_monotonic [of fresh_sniper sample_config "''hats''" "[hats_cycle]" "[hats_cycle]"
      "cacheDisk (scanCycles sample_config ''hats'' [hats_cycle] fresh_sniper)"]
  from t have a: "set (seenRareNFTs (scanCycles sample_config ''hats'' [hats_cycle] fresh_sniper))
     \<subseteq> set (seenRareNFTs (scanCycles sample_config ''hats'' ([hats_cycle] @ [hats_cycle]) fresh_sniper))"
    by (elim conjE)
  have p: "getSeenRareNFTsPath ''hats'' \<noteq> getCacheFilePath ''hats''"
    by (simp add: getSeenRareNFTsPath_def getCacheFilePath_def)
  from t have "\<forall>p. p \<noteq> getCacheFilePath ''hats'' \<longrightarrow>
     files (snd (clearCache (cacheDisk (scanCycles sample_config ''hats'' [hats_cycle] fresh_sniper)) ''hats'')) p =
     files (cacheDisk (scanCycles sample_config ''hats'' [hats_cycle] fresh_sniper)) p"
    by (elim conjE)
  with p have "files (snd (clearCache (cacheDisk (scanCycles sample_config ''hats'' [hats_cycle] fresh_sniper)) ''hats''))
     (getSeenRareNFTsPath ''hats'') =
     files (cacheDisk (scanCycles sample_config ''hats'' [hats_cycle] fresh_sniper)) (getSeenRareNFTsPath ''hats'')"
    by blast
  with hats_disk_after_clear have c: "files (snd (clearCache (cacheDisk (scanCycles sample_config ''hats'' [hats_cycle] fresh_sniper)) ''hats''))
     (getSeenRareNFTsPath ''hats'') =
     Some \<lparr> mtime = 3000, content = Parsed (MintArray [''m2'', ''m3'']) \<rparr>"
    by simp
  from hats_first_cycle hats_second_cycle a p c show ?thesis by (intro conjI) simp_all
qed

section \<open>The scheduler\<close>

lemma sched_run_snoc: "sched_run (evs @ [ev]) = sched_step ev (sched_run evs)"
  by (simp add: sched_run_def)

lemma sched_invariant:
  "scansInProgress (sched_run evs) \<le> 1 \<and>
   (isScanRunning (sched_run evs) \<longleftrightarrow> scansInProgress (sched_run evs) = 1)"
proof (induction evs rule: rev_induct)
  case Nil
  then show ?case by (simp add: sched_run_def sched_init_def)
next
  case (snoc ev evs)
  then show ?case
    by (cases ev) (auto simp: sched_run_snoc sched_step_def main_start_def main_finally_def)
qed

subsection \<open>Claim C4\<close>

text \<open>
  Claim C4. After every sequence of triggers and settling cycles at most one scan
  cycle is in progress, and the flag is set exactly when one is. A trigger that comes
  while the flag is set changes nothing but the count of dropped triggers; when the
  cycle settles, with or without a caught error, the flag is reset and no cycle is in
  progress; a trigger that comes while the flag is not set starts a cycle.
\<close>

theorem single_flight:
  "scansInProgress (sched_run evs) \<le> 1 \<and>
   (isScanRunning (sched_run evs) \<longleftrightarrow> scansInProgress (sched_run evs) = 1) \<and>
   (isScanRunning (sched_run evs) \<longrightarrow>
      sched_run (evs @ [Trigger t]) =
        (sched_run evs)\<lparr> triggersDropped := triggersDropped (sched_run evs) + 1 \<rparr> \<and>
      \<not> isScanRunning (sched_run (evs @ [CycleSettles oc])) \<and>
      scansInProgress (sched_run (evs @ [CycleSettles oc])) = 0) \<and>
   (\<not> isScanRunning (sched_run evs) \<longrightarrow>
      isScanRunning (sched_run (evs @ [Trigger t])) \<and>
      scansInProgress (sched_run (evs @ [Trigger t])) = 1 \<and>
      scansStarted (sched_run (evs @ [Trigger t])) = scansStarted (sched_run evs) + 1)"
  using sched_invariant [of evs]
  by (auto simp: sched_run_snoc sched_step_def main_start_def main_finally_def)

text \<open>
  The theorem after the trigger at startup, and before it.
\<close>

theorem single_flight_witness:
  "isScanRunning (sched_run [Trigger Startup]) \<and>
   sched_run ([Trigger Startup] @ [Trigger IntervalTimer]) =
     (sched_run [Trigger Startup])\<lparr> triggersDropped := 1 \<rparr> \<and>
   scansStarted (sched_run ([Trigger Startup] @ [Trigger IntervalTimer])) = 1 \<and>
   \<not> isScanRunning (sched_run ([Trigger Startup] @ [CycleSettles ErrorCaught])) \<and>
   \<not> isScanRunning (sched_run []) \<and>
   scansStarted (sched_run ([] @ [Trigger Startup])) = 1"
  using single_flight [of "[Trigger Startup]" IntervalTimer ErrorCaught]
    single_flight [of "[]" Startup Succeeded]
  by (simp add: sched_run_def sched_step_def main_start_def main_finally_def sched_init_def)

section \<open>Rate limiting\<close>

lemma requestError_429:
  "requestError (HttpError 429 True) s = (True, s\<lparr> trace := trace s @ [Sleep 5000] \<rparr>)"
  by (simp add: requestError_def)

lemma requestError_other:
  "e \<noteq> HttpError 429 True \<Longrightarrow> requestError e s = (False, s)"
  by (cases e) (auto simp: requestError_def)

lemma retried_0: "retried r 0 s = s"
  by (simp add: retried_def)

lemma retried_Suc:
  "retried r (Suc k) s = retried r k (s\<lparr> clock := clock s + 1, trace := trace s @ [Get r, Sleep 5000] \<rparr>)"
  by (simp add: retried_def)

lemma listingsLoop_429:
  assumes "listings a (clock s) symbol offset limit = Inl (HttpError 429 True)"
  shows "listingsLoop a symbol allListings offset s =
         listingsLoop a symbol allListings offset (retried (Listings symbol offset limit) 1 s)"
  by (subst listingsLoop.simps) (simp add: assms requestError_429 issue_def retried_def)

lemma listingsLoop_abandon:
  assumes "listings a (clock s) symbol offset limit = Inl e" "e \<noteq> HttpError 429 True"
  shows "listingsLoop a symbol allListings offset s =
         Some (allListings, issue (Listings symbol offset limit) s)"
  by (subst listingsLoop.simps) (simp add: assms requestError_other)

lemma listingsLoop_last_page:
  assumes "listings a (clock s) symbol offset limit = Inr (Some page)" "length page < limit"
  shows "listingsLoop a symbol allListings offset s =
         Some (allListings @ page, issue (Listings symbol offset limit) s)"
  by (subst listingsLoop.simps) (use assms in auto)

lemma listingsLoop_retries:
  assumes "\<forall>i < k. listings a (clock s + i) symbol offset limit = Inl (HttpError 429 True)"
  shows "listingsLoop a symbol allListings offset s =
         listingsLoop a symbol allListings offset (retried (Listings symbol offset limit) k s)"
  using assms
proof (induction k arbitrary: s)
  case 0
  show ?case by (simp add: retried_0)
next
  case (Suc k)
  let ?s1 = "s\<lparr> clock := clock s + 1, trace := trace s @ [Get (Listings symbol offset limit), Sleep 5000] \<rparr>"
  from Suc.prems have "listings a (clock s) symbol offset limit = Inl (HttpError 429 True)"
    by (metis add.right_neutral zero_less_Suc)
  then have "listingsLoop a symbol allListings offset s = listingsLoop a symbol allListings offset ?s1"
    by (simp add: listingsLoop_429 retried_def)
  moreover have "\<forall>i < k. listings a (clock ?s1 + i) symbol offset limit = Inl (HttpError 429 True)"
    using Suc.prems by (auto simp: less_Suc_eq_0_disj)
  ultimately show ?case
    using Suc.IH [of ?s1] by (simp add: retried_Suc)
qed

lemma listingsLoop_Some_not_429:
  assumes "listingsLoop a symbol allListings offset s = Some y"
  shows "\<exists>n off. listings a n symbol off limit \<noteq> Inl (HttpError 429 True)"
proof (rule listingsLoop.raw_induct
    [where P = "\<lambda>a symbol allListings offset s y.
                  \<exists>n off. listings a n symbol off limit \<noteq> Inl (HttpError 429 True)",
     OF _ assms])
  fix loop :: "('a, 'b) api \<Rightarrow> string \<Rightarrow> listing list \<Rightarrow> nat \<Rightarrow> io \<Rightarrow> (listing list \<times> io) option"
    and a :: "('a, 'b) api" and symbol allListings offset s y
  assume IH: "\<And>a symbol allListings offset s y. loop a symbol allListings offset s = Some y \<Longrightarrow>
                \<exists>n off. listings a n symbol off limit \<noteq> Inl (HttpError 429 True)"
    and body: "(case listings a (clock s) symbol offset limit of
      Inl e \<Rightarrow>
        (case requestError e (issue (Listings symbol offset limit) s) of
        (retry, s') \<Rightarrow>
          if retry then loop a symbol allListings offset s'
          else Some (allListings, s'))
      | Inr None \<Rightarrow>
          Some (allListings, issue (Listings symbol offset limit) s)
      | Inr (Some page) \<Rightarrow>
          if 0 < length page
          then if length page < limit
               then Some
                     (allListings @ page,
                      issue (Listings symbol offset limit) s)
               else loop a symbol (allListings @ page)
                     (offset + limit)
                     (issue (Listings symbol offset limit) s)
          else Some (allListings, issue (Listings symbol offset limit) s)) =
     Some y"
  show "\<exists>n off. listings a n symbol off limit \<noteq> Inl (HttpError 429 True)"
  proof (cases "listings a (clock s) symbol offset limit = Inl (HttpError 429 True)")
    case False
    then show ?thesis by blast
  next
    case True
    with body have "loop a symbol allListings offset
           (snd (requestError (HttpError 429 True) (issue (Listings symbol offset limit) s))) = Some y"
      by (simp add: requestError_429)
    then show ?thesis by (rule IH)
  qed
qed

lemma listingsLoop_never_returns:
  assumes "\<forall>n offset. listings a n symbol offset limit = Inl (HttpError 429 True)"
  shows "listingsLoop a symbol allListings offset s = None"
proof (cases "listingsLoop a symbol allListings offset s")
  case None
  then show ?thesis .
next
  case (Some y)
  from listingsLoop_Some_not_429 [OF this] assms show ?thesis by blast
qed

lemma activitiesLoop_429:
  assumes "activities a (clock s) symbol offset limit = Inl (HttpError 429 True)"
  shows "activitiesLoop a maxNFTs symbol allNFTs offset s =
         activitiesLoop a maxNFTs symbol allNFTs offset (retried (Activities symbol offset limit) 1 s)"
  by (subst activitiesLoop.simps) (simp add: assms requestError_429 issue_def retried_def)

lemma activitiesLoop_abandon:
  assumes "activities a (clock s) symbol offset limit = Inl e" "e \<noteq> HttpError 429 True"
  shows "activitiesLoop a maxNFTs symbol allNFTs offset s =
         Some (allNFTs, issue (Activities symbol offset limit) s)"
  by (subst activitiesLoop.simps) (simp add: assms requestError_other)

lemma activitiesLoop_empty_page:
  assumes "activities a (clock s) symbol offset limit = Inr (Some [])"
  shows "activitiesLoop a maxNFTs symbol allNFTs offset s =
         Some (allNFTs, issue (Activities symbol offset limit) s)"
  by (subst activitiesLoop.simps) (simp add: assms)

lemma activitiesLoop_retries:
  assumes "\<forall>i < k. activities a (clock s + i) symbol offset limit = Inl (HttpError 429 True)"
  shows "activitiesLoop a maxNFTs symbol allNFTs offset s =
         activitiesLoop a maxNFTs symbol allNFTs offset (retried (Activities symbol offset limit) k s)"
  using assms
proof (induction k arbitrary: s)
  case 0
  show ?case by (simp add: retried_0)
next
  case (Suc k)
  let ?s1 = "s\<lparr> clock := clock s + 1, trace := trace s @ [Get (Activities symbol offset limit), Sleep 5000] \<rparr>"
  from Suc.prems have "activities a (clock s) symbol offset limit = Inl (HttpError 429 True)"
    by (metis add.right_neutral zero_less_Suc)
  then have "activitiesLoop a maxNFTs symbol allNFTs offset s =
             activitiesLoop a maxNFTs symbol allNFTs offset ?s1"
    by (simp add: activitiesLoop_429 retried_def)
  moreover have "\<forall>i < k. activities a (clock ?s1 + i) symbol offset limit = Inl (HttpError 429 True)"
    using Suc.prems by (auto simp: less_Suc_eq_0_disj)
  ultimately show ?case
    using Suc.IH [of ?s1] by (simp add: retried_Suc)
qed

lemma activitiesLoop_Some_not_429:
  assumes "activitiesLoop a maxNFTs symbol allNFTs offset s = Some y"
  shows "\<exists>n off. activities a n symbol off limit \<noteq> Inl (HttpError 429 True)"
proof (rule activitiesLoop.raw_induct
    [where P = "\<lambda>a maxNFTs symbol allNFTs offset s y.
                  \<exists>n off. activities a n symbol off limit \<noteq> Inl (HttpError 429 True)",
     OF _ assms])
  fix loop :: "('a, 'b) api \<Rightarrow> nat \<Rightarrow> string \<Rightarrow> api_nft list \<Rightarrow> nat \<Rightarrow> io \<Rightarrow> (api_nft list \<times> io) option"
    and a :: "('a, 'b) api" and maxNFTs symbol allNFTs offset s y
  assume IH: "\<And>a maxNFTs symbol allNFTs offset s y. loop a maxNFTs symbol allNFTs offset s = Some y \<Longrightarrow>
                \<exists>n off. activities a n symbol off limit \<noteq> Inl (HttpError 429 True)"
    and body: "(case activities a (clock s) symbol offset limit of
      Inl e \<Rightarrow>
        (case requestError e (issue (Activities symbol offset limit) s) of
        (retry, s') \<Rightarrow>
          if retry then loop a maxNFTs symbol allNFTs offset s'
          else Some (allNFTs, s'))
      | Inr None \<Rightarrow> Some (allNFTs, issue (Activities symbol offset limit) s)
      | Inr (Some page) \<Rightarrow>
          if 0 < length page
          then (case tokensLoop a maxNFTs (uniqueTokens page)
                     (allNFTs, True,
                      issue (Activities symbol offset limit) s) of
               (allNFTs', hasMore, s') \<Rightarrow>
                 if length page < limit \<or> maxNFTs \<le> length allNFTs'
                 then Some (allNFTs', s')
                 else if hasMore
                      then loop a maxNFTs symbol allNFTs'
                            (offset + limit) s'
                      else Some (allNFTs', s'))
          else Some (allNFTs, issue (Activities symbol offset limit) s)) =
     Some y"
  show "\<exists>n off. activities a n symbol off limit \<noteq> Inl (HttpError 429 True)"
  proof (cases "activities a (clock s) symbol offset limit = Inl (HttpError 429 True)")
    case False
    then show ?thesis by blast
  next
    case True
    with body have "loop a maxNFTs symbol allNFTs offset
           (snd (requestError (HttpError 429 True) (issue (Activities symbol offset limit) s))) = Some y"
      by (simp add: requestError_429)
    then show ?thesis by (rule IH)
  qed
qed

lemma activitiesLoop_never_returns:
  assumes "\<forall>n offset. activities a n symbol offset limit = Inl (HttpError 429 True)"
  shows "activitiesLoop a maxNFTs symbol allNFTs offset s = None"
proof (cases "activitiesLoop a maxNFTs symbol allNFTs offset s")
  case None
  then show ?thesis .
next
  case (Some y)
  from activitiesLoop_Some_not_429 [OF this] assms show ?thesis by blast
qed

lemma getNFTMetadata_trace:
  "\<exists>rest. trace (snd (getNFTMetadata a mint s)) = trace s @ rest"
  by (auto simp: getNFTMetadata_def issue_def requestError_def split: sum.splits error.splits)

lemma tokensLoop_trace:
  "\<exists>rest. trace (snd (snd (tokensLoop a maxNFTs mints (allNFTs, hasMore, s)))) = trace s @ rest"
proof (induction mints arbitrary: allNFTs hasMore s)
  case Nil
  show ?case by simp
next
  case (Cons mint mints)
  obtain md s1 where g: "getNFTMetadata a mint s = (md, s1)" by (cases "getNFTMetadata a mint s")
  from getNFTMetadata_trace [of a mint s] g obtain r1 where r1: "trace s1 = trace s @ r1" by auto
  from Cons.IH [of allNFTs hasMore s1] r1
  have a1: "\<exists>rest. trace (snd (snd (tokensLoop a maxNFTs mints (allNFTs, hasMore, s1)))) = trace s @ rest"
    by auto
  have a2: "\<exists>rest. trace (snd (snd (tokensLoop a maxNFTs mints (allNFTs @ [x], hasMore, s1)))) = trace s @ rest" for x
    using Cons.IH [of "allNFTs @ [x]" hasMore s1] r1 by auto
  show ?case
    using Cons.IH [of allNFTs hasMore s] a1 a2 g
    by (cases md) (auto simp del: append_assoc)
qed

lemma listingsLoop_first_request:
  assumes "listingsLoop a symbol allListings offset s = Some y"
  shows "\<exists>rest. trace (snd y) = trace s @ Get (Listings symbol offset limit) # rest"
proof (rule listingsLoop.raw_induct
    [where P = "\<lambda>a symbol allListings offset s y.
                  \<exists>rest. trace (snd y) = trace s @ Get (Listings symbol offset limit) # rest",
     OF _ assms])
  fix loop :: "('a, 'b) api \<Rightarrow> string \<Rightarrow> listing list \<Rightarrow> nat \<Rightarrow> io \<Rightarrow> (listing list \<times> io) option"
    and a :: "('a, 'b) api" and symbol allListings offset s y
  assume IH: "\<And>a symbol allListings offset s y. loop a symbol allListings offset s = Some y \<Longrightarrow>
                \<exists>rest. trace (snd y) = trace s @ Get (Listings symbol offset limit) # rest"
    and body: "(case listings a (clock s) symbol offset limit of
      Inl e \<Rightarrow>
        (case requestError e (issue (Listings symbol offset limit) s) of
        (retry, s') \<Rightarrow>
          if retry then loop a symbol allListings offset s'
          else Some (allListings, s'))
      | Inr None \<Rightarrow>
          Some (allListings, issue (Listings symbol offset limit) s)
      | Inr (Some page) \<Rightarrow>
          if 0 < length page
          then if length page < limit
               then Some
                     (allListings @ page,
                      issue (Listings symbol offset limit) s)
               else loop a symbol (allListings @ page)
                     (offset + limit)
                     (issue (Listings symbol offset limit) s)
          else Some (allListings, issue (Listings symbol offset limit) s)) =
     Some y"
  show "\<exists>rest. trace (snd y) = trace s @ Get (Listings symbol offset limit) # rest"
  proof (cases "listings a (clock s) symbol offset limit")
    case (Inl e)
    show ?thesis
    proof (cases "e = HttpError 429 True")
      case True
      with body Inl have "loop a symbol allListings offset
           ((issue (Listings symbol offset limit) s)\<lparr> trace := trace (issue (Listings symbol offset limit) s) @ [Sleep 5000] \<rparr>) = Some y"
        by (simp add: requestError_429)
      from IH [OF this] show ?thesis by (auto simp: issue_def)
    next
      case False
      with body Inl show ?thesis by (auto simp: requestError_other issue_def)
    qed
  next
    case (Inr data)
    show ?thesis
    proof (cases data)
      case None
      with body Inr show ?thesis by (auto simp: issue_def)
    next
      case (Some page)
      show ?thesis
      proof (cases "0 < length page \<and> \<not> length page < limit")
        case True
        with body Inr Some have "loop a symbol (allListings @ page) (offset + limit)
                     (issue (Listings symbol offset limit) s) = Some y"
          by simp
        from IH [OF this] show ?thesis by (auto simp: issue_def)
      next
        case False
        with body Inr Some show ?thesis by (auto simp: issue_def split: if_splits)
      qed
    qed
  qed
qed

lemma activitiesLoop_first_request:
  assumes "activitiesLoop a maxNFTs symbol allNFTs offset s = Some y"
  shows "\<exists>rest. trace (snd y) = trace s @ Get (Activities symbol offset limit) # rest"
proof (rule activitiesLoop.raw_induct
    [where P = "\<lambda>a maxNFTs symbol allNFTs offset s y.
                  \<exists>rest. trace (snd y) = trace s @ Get (Activities symbol offset limit) # rest",
     OF _ assms])
  fix loop :: "('a, 'b) api \<Rightarrow> nat \<Rightarrow> string \<Rightarrow> api_nft list \<Rightarrow> nat \<Rightarrow> io \<Rightarrow> (api_nft list \<times> io) option"
    and a :: "('a, 'b) api" and maxNFTs symbol allNFTs offset s y
  assume IH: "\<And>a maxNFTs symbol allNFTs offset s y. loop a maxNFTs symbol allNFTs offset s = Some y \<Longrightarrow>
                \<exists>rest. trace (snd y) = trace s @ Get (Activities symbol offset limit) # rest"
    and body: "(case activities a (clock s) symbol offset limit of
      Inl e \<Rightarrow>
        (case requestError e (issue (Activities symbol offset limit) s) of
        (retry, s') \<Rightarrow>
          if retry then loop a maxNFTs symbol allNFTs offset s'
          else Some (allNFTs, s'))
      | Inr None \<Rightarrow> Some (allNFTs, issue (Activities symbol offset limit) s)
      | Inr (Some page) \<Rightarrow>
          if 0 < length page
          then (case tokensLoop a maxNFTs (uniqueTokens page)
                     (allNFTs, True,
                      issue (Activities symbol offset limit) s) of
               (allNFTs', hasMore, s') \<Rightarrow>
                 if length page < limit \<or> maxNFTs \<le> length allNFTs'
                 then Some (allNFTs', s')
                 else if hasMore
                      then loop a maxNFTs symbol allNFTs'
                            (offset + limit) s'
                      else Some (allNFTs', s'))
          else Some (allNFTs, issue (Activities symbol offset limit) s)) =
     Some y"
  show "\<exists>rest. trace (snd y) = trace s @ Get (Activities symbol offset limit) # rest"
  proof (cases "activities a (clock s) symbol offset limit")
    case (Inl e)
    show ?thesis
    proof (cases "e = HttpError 429 True")
      case True
      with body Inl have "loop a maxNFTs symbol allNFTs offset
           ((issue (Activities symbol offset limit) s)\<lparr> trace := trace (issue (Activities symbol offset limit) s) @ [Sleep 5000] \<rparr>) = Some y"
        by (simp add: requestError_429)
      from IH [OF this] show ?thesis by (auto simp: issue_def)
    next
      case False
      with body Inl show ?thesis by (auto simp: requestError_other issue_def)
    qed
  next
    case (Inr data)
    show ?thesis
    proof (cases data)
      case None
      with body Inr show ?thesis by (auto simp: issue_def)
    next
      case (Some page)
      show ?thesis
      proof (cases "0 < length page")
        case False
        with body Inr Some show ?thesis by (auto simp: issue_def)
      next
        case True
        obtain allNFTs' hasMore s' where
          t: "tokensLoop a maxNFTs (uniqueTokens page)
                (allNFTs, True, issue (Activities symbol offset limit) s) = (allNFTs', hasMore, s')"
          by (cases "tokensLoop a maxNFTs (uniqueTokens page)
                (allNFTs, True, issue (Activities symbol offset limit) s)") auto
        from tokensLoop_trace [of a maxNFTs "uniqueTokens page" allNFTs True
            "issue (Activities symbol offset limit) s"] t
        obtain r1 where r1: "trace s' = trace s @ Get (Activities symbol offset limit) # r1"
          by (auto simp: issue_def)
        show ?thesis
        proof (cases "length page < limit \<or> maxNFTs \<le> length allNFTs' \<or> \<not> hasMore")
          case True
          with body Inr Some \<open>0 < length page\<close> t have "y = (allNFTs', s')"
            by (auto split: if_splits)
          with r1 show ?thesis by simp
        next
          case False
          with body Inr Some \<open>0 < length page\<close> t
          have "loop a maxNFTs symbol allNFTs' (offset + limit) s' = Some y"
            by (auto split: if_splits)
          from IH [OF this] r1 show ?thesis by auto
        qed
      qed
    qed
  qed
qed

subsection \<open>Claim C5\<close>

text \<open>
  Claim C5, as amended. For an error with status 429 \<^verbatim>\<open>requestError\<close> waits 5 seconds
  and says to retry; for every other error it does not wait and says not to. A
  paginated fetch whose request fails with 429 goes on from the same state after the
  wait, and its next request is the same one; when the request fails otherwise it
  stops and returns the records gathered so far. A fetch of a single record returns
  \<^verbatim>\<open>null\<close> after every failure and issues no second request: after a 429 it waits the 5
  seconds and gives up.
\<close>

theorem rate_limit_handling:
  "requestError (HttpError 429 True) s = (True, s\<lparr> trace := trace s @ [Sleep 5000] \<rparr>) \<and>
   (e \<noteq> HttpError 429 True \<longrightarrow> requestError e s = (False, s)) \<and>
   (listings a (clock s) symbol offset limit = Inl (HttpError 429 True) \<longrightarrow>
      listingsLoop a symbol allListings offset s =
        listingsLoop a symbol allListings offset
          (s\<lparr> clock := clock s + 1,
              trace := trace s @ [Get (Listings symbol offset limit), Sleep 5000] \<rparr>) \<and>
      (\<forall>y. listingsLoop a symbol allListings offset s = Some y \<longrightarrow>
         (\<exists>rest. trace (snd y) =
            trace s @ [Get (Listings symbol offset limit), Sleep 5000,
                       Get (Listings symbol offset limit)] @ rest))) \<and>
   (activities a (clock s) symbol offset limit = Inl (HttpError 429 True) \<longrightarrow>
      activitiesLoop a maxNFTs symbol allNFTs offset s =
        activitiesLoop a maxNFTs symbol allNFTs offset
          (s\<lparr> clock := clock s + 1,
              trace := trace s @ [Get (Activities symbol offset limit), Sleep 5000] \<rparr>) \<and>
      (\<forall>y. activitiesLoop a maxNFTs symbol allNFTs offset s = Some y \<longrightarrow>
         (\<exists>rest. trace (snd y) =
            trace s @ [Get (Activities symbol offset limit), Sleep 5000,
                       Get (Activities symbol offset limit)] @ rest))) \<and>
   (listings a (clock s) symbol offset limit = Inl e \<and> e \<noteq> HttpError 429 True \<longrightarrow>
      listingsLoop a symbol allListings offset s =
        Some (allListings, s\<lparr> clock := clock s + 1,
                              trace := trace s @ [Get (Listings symbol offset limit)] \<rparr>)) \<and>
   (activities a (clock s) symbol offset limit = Inl e \<and> e \<noteq> HttpError 429 True \<longrightarrow>
      activitiesLoop a maxNFTs symbol allNFTs offset s =
        Some (allNFTs, s\<lparr> clock := clock s + 1,
                           trace := trace s @ [Get (Activities symbol offset limit)] \<rparr>)) \<and>
   (collections a (clock s) symbol = Inl e \<longrightarrow>
      getCollectionInfo a symbol s =
        (None, s\<lparr> clock := clock s + 1,
                  trace := trace s @ [Get (CollectionInfo symbol)]
                             @ (if e = HttpError 429 True then [Sleep 5000] else []) \<rparr>)) \<and>
   (collectionStats a (clock s) symbol = Inl e \<longrightarrow>
      getCollectionStats a symbol s =
        (None, s\<lparr> clock := clock s + 1,
                  trace := trace s @ [Get (CollectionStats symbol)]
                             @ (if e = HttpError 429 True then [Sleep 5000] else []) \<rparr>)) \<and>
   (tokens a (clock s) mint = Inl e \<longrightarrow>
      getNFTMetadata a mint s =
        (None, s\<lparr> clock := clock s + 1,
                  trace := trace s @ [Get (Token mint)]
                             @ (if e = HttpError 429 True then [Sleep 5000] else []) \<rparr>))"
proof (intro conjI impI allI)
  show "requestError (HttpError 429 True) s = (True, s\<lparr> trace := trace s @ [Sleep 5000] \<rparr>)"
    by (rule requestError_429)
next
  assume "e \<noteq> HttpError 429 True"
  then show "requestError e s = (False, s)" by (rule requestError_other)
next
  assume "listings a (clock s) symbol offset limit = Inl (HttpError 429 True)"
  then show "listingsLoop a symbol allListings offset s =
        listingsLoop a symbol allListings offset
          (s\<lparr> clock := clock s + 1,
              trace := trace s @ [Get (Listings symbol offset limit), Sleep 5000] \<rparr>)"
    by (simp add: listingsLoop_429 retried_def)
next
  fix y
  assume r: "listings a (clock s) symbol offset limit = Inl (HttpError 429 True)"
    and y: "listingsLoop a symbol allListings offset s = Some y"
  from y have "listingsLoop a symbol allListings offset
          (s\<lparr> clock := clock s + 1,
              trace := trace s @ [Get (Listings symbol offset limit), Sleep 5000] \<rparr>) = Some y"
    by (simp add: listingsLoop_429 [OF r] retried_def)
  from listingsLoop_first_request [OF this]
  show "\<exists>rest. trace (snd y) =
            trace s @ [Get (Listings symbol offset limit), Sleep 5000,
                       Get (Listings symbol offset limit)] @ rest"
    by simp
next
  assume "activities a (clock s) symbol offset limit = Inl (HttpError 429 True)"
  then show "activitiesLoop a maxNFTs symbol allNFTs offset s =
        activitiesLoop a maxNFTs symbol allNFTs offset
          (s\<lparr> clock := clock s + 1,
              trace := trace s @ [Get (Activities symbol offset limit), Sleep 5000] \<rparr>)"
    by (simp add: activitiesLoop_429 retried_def)
next
  fix y
  assume r: "activities a (clock s) symbol offset limit = Inl (HttpError 429 True)"
    and y: "activitiesLoop a maxNFTs symbol allNFTs offset s = Some y"
  from y have "activitiesLoop a maxNFTs symbol allNFTs offset
          (s\<lparr> clock := clock s + 1,
              trace := trace s @ [Get (Activities symbol offset limit), Sleep 5000] \<rparr>) = Some y"
    by (simp add: activitiesLoop_429 [OF r] retried_def)
  from activitiesLoop_first_request [OF this]
  show "\<exists>rest. trace (snd y) =
            trace s @ [Get (Activities symbol offset limit), Sleep 5000,
                       Get (Activities symbol offset limit)] @ rest"
    by simp
next
  assume "listings a (clock s) symbol offset limit = Inl e \<and> e \<noteq> HttpError 429 True"
  then show "listingsLoop a symbol allListings offset s =
        Some (allListings, s\<lparr> clock := clock s + 1,
                              trace := trace s @ [Get (Listings symbol offset limit)] \<rparr>)"
    by (simp add: listingsLoop_abandon issue_def)
next
  assume "activities a (clock s) symbol offset limit = Inl e \<and> e \<noteq> HttpError 429 True"
  then show "activitiesLoop a maxNFTs symbol allNFTs offset s =
        Some (allNFTs, s\<lparr> clock := clock s + 1,
                           trace := trace s @ [Get (Activities symbol offset limit)] \<rparr>)"
    by (simp add: activitiesLoop_abandon issue_def)
next
  assume "collections a (clock s) symbol = Inl e"
  then show "getCollectionInfo a symbol s =
        (None, s\<lparr> clock := clock s + 1,
                  trace := trace s @ [Get (CollectionInfo symbol)]
                             @ (if e = HttpError 429 True then [Sleep 5000] else []) \<rparr>)"
    by (simp add: getCollectionInfo_def requestError_429 requestError_other issue_def)
next
  assume "collectionStats a (clock s) symbol = Inl e"
  then show "getCollectionStats a symbol s =
        (None, s\<lparr> clock := clock s + 1,
                  trace := trace s @ [Get (CollectionStats symbol)]
                             @ (if e = HttpError 429 True then [Sleep 5000] else []) \<rparr>)"
    by (simp add: getCollectionStats_def requestError_429 requestError_other issue_def)
next
  assume "tokens a (clock s) mint = Inl e"
  then show "getNFTMetadata a mint s =
        (None, s\<lparr> clock := clock s + 1,
                  trace := trace s @ [Get (Token mint)]
                             @ (if e = HttpError 429 True then [Sleep 5000] else []) \<rparr>)"
    by (simp add: getNFTMetadata_def requestError_429 requestError_other issue_def)
qed

text \<open>
  The theorem at a marketplace that answers 429 to the first two requests.
\<close>

theorem rate_limit_handling_witness:
  "listings busy_twice (clock start) ''hats'' 0 limit = Inl (HttpError 429 True) \<and>
   listingsLoop busy_twice ''hats'' [] 0 start =
     listingsLoop busy_twice ''hats'' [] 0
       \<lparr> clock = 1, trace = [Get (Listings ''hats'' 0 limit), Sleep 5000] \<rparr> \<and>
   requestError NoResponse start = (False, start) \<and>
   getNFTMetadata busy_twice ''m1'' start =
     (None, \<lparr> clock = 1, trace = [Get (Token ''m1''), Sleep 5000] \<rparr>)"
  using rate_limit_handling [of start NoResponse busy_twice "''hats''" 0 "[]" 0 "[]" "''m1''"]
    rate_limit_handling [of start "HttpError 429 True" busy_twice "''hats''" 0 "[]" 0 "[]" "''m1''"]
  by (simp add: busy_twice_def start_def)

text \<open>
  Claim C5 as stated fails for the fetch of a single record: the first request for a
  token, or for the collection, fails with 429 and the next request would succeed, but
  the fetch returns \<^verbatim>\<open>null\<close> after one request and one wait.
\<close>

theorem single_fetch_no_retry_counterexample:
  "tokens busy_once 0 ''m1'' = Inl (HttpError 429 True) \<and>
   tokens busy_once 1 ''m1'' = Inr (Some (plain_record ''m1'')) \<and>
   getNFTMetadata busy_once ''m1'' start =
     (None, \<lparr> clock = 1, trace = [Get (Token ''m1''), Sleep 5000] \<rparr>) \<and>
   collections busy_once 0 ''hats'' = Inl (HttpError 429 True) \<and>
   collections busy_once 1 ''hats'' = Inr (Some ()) \<and>
   getCollectionInfo busy_once ''hats'' start =
     (None, \<lparr> clock = 1, trace = [Get (CollectionInfo ''hats''), Sleep 5000] \<rparr>)"
  by (simp add: busy_once_def start_def getNFTMetadata_def getCollectionInfo_def
      requestError_def issue_def)

subsection \<open>Claim C6\<close>

text \<open>
  Claim C6, as amended. The retries of a paginated fetch are not capped: for every
  \<open>k\<close>, when the marketplace answers 429 to the first \<open>k\<close> requests and then sends a last
  page, the fetch returns after \<open>k\<close> waits and \<open>k + 1\<close> requests; and when the marketplace
  answers 429 to every request, the fetch never returns.
\<close>

theorem retries_not_capped:
  "((\<forall>i < k. listings a (clock s + i) symbol offset limit = Inl (HttpError 429 True)) \<and>
    listings a (clock s + k) symbol offset limit = Inr (Some page) \<and> length page < limit \<longrightarrow>
      listingsLoop a symbol allListings offset s =
        Some (allListings @ page,
              \<lparr> clock = clock s + k + 1,
                trace = trace s
                  @ concat (replicate k [Get (Listings symbol offset limit), Sleep 5000])
                  @ [Get (Listings symbol offset limit)] \<rparr>)) \<and>
   ((\<forall>i < k. activities a (clock s + i) symbol offset limit = Inl (HttpError 429 True)) \<and>
    activities a (clock s + k) symbol offset limit = Inr (Some []) \<longrightarrow>
      activitiesLoop a maxNFTs symbol allNFTs offset s =
        Some (allNFTs,
              \<lparr> clock = clock s + k + 1,
                trace = trace s
                  @ concat (replicate k [Get (Activities symbol offset limit), Sleep 5000])
                  @ [Get (Activities symbol offset limit)] \<rparr>)) \<and>
   ((\<forall>n off. listings a n symbol off limit = Inl (HttpError 429 True)) \<longrightarrow>
      getCollectionListings a symbol s = None) \<and>
   ((\<forall>n off. activities a n symbol off limit = Inl (HttpError 429 True)) \<longrightarrow>
      getAllCollectionNFTs cfg a symbol s = None)"
proof (intro conjI impI)
  assume h: "(\<forall>i < k. listings a (clock s + i) symbol offset limit = Inl (HttpError 429 True)) \<and>
    listings a (clock s + k) symbol offset limit = Inr (Some page) \<and> length page < limit"
  let ?s = "retried (Listings symbol offset limit) k s"
  from h have "listingsLoop a symbol allListings offset s = listingsLoop a symbol allListings offset ?s"
    by (simp add: listingsLoop_retries)
  also from h have "\<dots> = Some (allListings @ page, issue (Listings symbol offset limit) ?s)"
    by (intro listingsLoop_last_page) (simp_all add: retried_def)
  finally show "listingsLoop a symbol allListings offset s =
        Some (allListings @ page,
              \<lparr> clock = clock s + k + 1,
                trace = trace s
                  @ concat (replicate k [Get (Listings symbol offset limit), Sleep 5000])
                  @ [Get (Listings symbol offset limit)] \<rparr>)"
    by (simp add: issue_def retried_def)
next
  assume h: "(\<forall>i < k. activities a (clock s + i) symbol offset limit = Inl (HttpError 429 True)) \<and>
    activities a (clock s + k) symbol offset limit = Inr (Some [])"
  let ?s = "retried (Activities symbol offset limit) k s"
  from h have "activitiesLoop a maxNFTs symbol allNFTs offset s =
               activitiesLoop a maxNFTs symbol allNFTs offset ?s"
    by (simp add: activitiesLoop_retries)
  also from h have "\<dots> = Some (allNFTs, issue (Activities symbol offset limit) ?s)"
    by (intro activitiesLoop_empty_page) (simp_all add: retried_def)
  finally show "activitiesLoop a maxNFTs symbol allNFTs offset s =
        Some (allNFTs,
              \<lparr> clock = clock s + k + 1,
                trace = trace s
                  @ concat (replicate k [Get (Activities symbol offset limit), Sleep 5000])
                  @ [Get (Activities symbol offset limit)] \<rparr>)"
    by (simp add: issue_def retried_def)
next
  assume "\<forall>n off. listings a n symbol off limit = Inl (HttpError 429 True)"
  then show "getCollectionListings a symbol s = None"
    unfolding getCollectionListings_def by (rule listingsLoop_never_returns)
next
  assume "\<forall>n off. activities a n symbol off limit = Inl (HttpError 429 True)"
  then show "getAllCollectionNFTs cfg a symbol s = None"
    unfolding getAllCollectionNFTs_def by (rule activitiesLoop_never_returns)
qed

text \<open>
  The theorem at two answers of 429 followed by a page, and at 429 forever.
\<close>

theorem retries_not_capped_witness:
  "getCollectionListings busy_twice ''hats'' start =
     Some ([\<lparr> tokenMint = ''m1'', listPrice = Some 5, listSeller = None \<rparr>],
           \<lparr> clock = 3,
             trace = [Get (Listings ''hats'' 0 limit), Sleep 5000,
                      Get (Listings ''hats'' 0 limit), Sleep 5000,
                      Get (Listings ''hats'' 0 limit)] \<rparr>) \<and>
   getAllCollectionNFTs sample_config busy_twice ''hats'' start =
     Some ([], \<lparr> clock = 3,
                 trace = [Get (Activities ''hats'' 0 limit), Sleep 5000,
                          Get (Activities ''hats'' 0 limit), Sleep 5000,
                          Get (Activities ''hats'' 0 limit)] \<rparr>) \<and>
   getCollectionListings rate_limited ''hats'' start = None"
  using retries_not_capped [of 2 busy_twice start "''hats''" 0
      "[\<lparr> tokenMint = ''m1'', listPrice = Some 5, listSeller = None \<rparr>]" "[]"
      "maxNFTsToFetch sample_config" "[]" sample_config]
    retries_not_capped [of 0 rate_limited start "''hats''" 0 "[]" "[]" 0 "[]" sample_config]
  by (simp add: busy_twice_def rate_limited_def start_def getCollectionListings_def
      getAllCollectionNFTs_def limit_def numeral_2_eq_2)

text \<open>
  Claim C6 as stated fails: at a marketplace that answers every request with 429
  neither paginated fetch returns.
\<close>

theorem fetch_never_returns_counterexample:
  "getCollectionListings rate_limited ''hats'' start = None \<and>
   getAllCollectionNFTs sample_config rate_limited ''hats'' start = None"
proof
  have "\<forall>n off. listings rate_limited n ''hats'' off limit = Inl (HttpError 429 True)"
    by (simp add: rate_limited_def)
  then show "getCollectionListings rate_limited ''hats'' start = None"
    unfolding getCollectionListings_def by (rule listingsLoop_never_returns)
  have "\<forall>n off. activities rate_limited n ''hats'' off limit = Inl (HttpError 429 True)"
    by (simp add: rate_limited_def)
  then show "getAllCollectionNFTs sample_config rate_limited ''hats'' start = None"
    unfolding getAllCollectionNFTs_def by (rule activitiesLoop_never_returns)
qed

end
